theory Spec2Isabelle
  imports Main
begin

section \<open>Values of the Python program\<close>

text \<open>
  The module \<^verbatim>\<open>xjfx.py\<close> launches a child process, drains its output pipes line by
  line, logs every line and returns a \<^verbatim>\<open>ProcData\<close> object. The embedding keeps Python's
  two string types apart: \<^verbatim>\<open>bytes\<close> is a list of 8-bit characters, \<^verbatim>\<open>str\<close> is a list of
  Unicode code points.
\<close>

type_synonym bytes = "char list"

type_synonym str = "nat list"

text \<open>A \<^verbatim>\<open>str\<close> literal of ASCII characters.\<close>

definition ascii :: "string \<Rightarrow> str" where
  "ascii s = map of_char s"

text \<open>
  The exceptions the modelled code can raise. \<open>SpawnFailure\<close> stands for whatever
  \<^verbatim>\<open>subprocess.Popen\<close> raises when the process cannot be created, \<open>InputWriteFailure\<close>
  for whatever \<^verbatim>\<open>stdin.write\<close> or \<^verbatim>\<open>stdin.flush\<close> raises.
\<close>

datatype error =
    SpawnFailure
  | InputWriteFailure
  | TypeError
  | UnicodeDecodeError
  | UnboundLocalError
  | AttributeError
  | IndexError

text \<open>An object handed to the logger as a message: a \<^verbatim>\<open>str\<close> or a \<^verbatim>\<open>bytes\<close>.\<close>

datatype pyval = Str str | Bytes bytes

text \<open>Python truthiness of a \<^verbatim>\<open>str\<close> or \<^verbatim>\<open>bytes\<close>: non-empty.\<close>

fun truthy_val :: "pyval \<Rightarrow> bool" where
  "truthy_val (Str s) = (s \<noteq> [])"
| "truthy_val (Bytes b) = (b \<noteq> [])"

subsection \<open>\<^verbatim>\<open>bytes.decode()\<close>: strict UTF-8\<close>

definition cont :: "nat \<Rightarrow> bool" where
  "cont b \<longleftrightarrow> 0x80 \<le> b \<and> b \<le> 0xBF"

text \<open>
  The decoder works on the numeric values of the bytes. It accepts exactly the
  well-formed sequences: no overlong forms, no surrogates, nothing above U+10FFFF.
\<close>

fun utf8 :: "nat list \<Rightarrow> str option" where
  "utf8 [] = Some []"
| "utf8 (b0 # bs) =
     (if b0 < 0x80 then map_option ((#) b0) (utf8 bs)
      else if 0xC2 \<le> b0 \<and> b0 \<le> 0xDF then
        (case bs of
           b1 # r \<Rightarrow>
             if cont b1
             then map_option ((#) ((b0 - 0xC0) * 64 + (b1 - 0x80))) (utf8 r)
             else None
         | _ \<Rightarrow> None)
      else if 0xE0 \<le> b0 \<and> b0 \<le> 0xEF then
        (case bs of
           b1 # b2 # r \<Rightarrow>
             if cont b1 \<and> cont b2 \<and> (b0 = 0xE0 \<longrightarrow> 0xA0 \<le> b1) \<and> (b0 = 0xED \<longrightarrow> b1 \<le> 0x9F)
             then map_option
                    ((#) ((b0 - 0xE0) * 4096 + (b1 - 0x80) * 64 + (b2 - 0x80))) (utf8 r)
             else None
         | _ \<Rightarrow> None)
      else if 0xF0 \<le> b0 \<and> b0 \<le> 0xF4 then
        (case bs of
           b1 # b2 # b3 # r \<Rightarrow>
             if cont b1 \<and> cont b2 \<and> cont b3
                \<and> (b0 = 0xF0 \<longrightarrow> 0x90 \<le> b1) \<and> (b0 = 0xF4 \<longrightarrow> b1 \<le> 0x8F)
             then map_option
                    ((#) ((b0 - 0xF0) * 262144 + (b1 - 0x80) * 4096
                          + (b2 - 0x80) * 64 + (b3 - 0x80))) (utf8 r)
             else None
         | _ \<Rightarrow> None)
      else None)"

definition decode :: "bytes \<Rightarrow> error + str" where
  "decode b = (case utf8 (map of_char b) of None \<Rightarrow> Inl UnicodeDecodeError | Some s \<Rightarrow> Inr s)"

subsection \<open>\<^verbatim>\<open>str.strip()\<close>\<close>

text \<open>The code points Python's \<^verbatim>\<open>str.isspace\<close> accepts.\<close>

definition isspace :: "nat \<Rightarrow> bool" where
  "isspace c \<longleftrightarrow>
     (0x09 \<le> c \<and> c \<le> 0x0D) \<or> (0x1C \<le> c \<and> c \<le> 0x20) \<or> c = 0x85 \<or> c = 0xA0
     \<or> c = 0x1680 \<or> (0x2000 \<le> c \<and> c \<le> 0x200A) \<or> c = 0x2028 \<or> c = 0x2029
     \<or> c = 0x202F \<or> c = 0x205F \<or> c = 0x3000"

definition lstrip :: "str \<Rightarrow> str" where
  "lstrip s = dropWhile isspace s"

definition rstrip :: "str \<Rightarrow> str" where
  "rstrip s = rev (dropWhile isspace (rev s))"

text \<open>\<^verbatim>\<open>line.strip()\<close> removes whitespace at both ends.\<close>

definition strip :: "str \<Rightarrow> str" where
  "strip s = rstrip (lstrip s)"

subsection \<open>\<^verbatim>\<open>shlex.join\<close> and \<^verbatim>\<open>repr\<close> of an integer\<close>

definition shlex_safe :: "nat \<Rightarrow> bool" where
  "shlex_safe c \<longleftrightarrow>
     (0x30 \<le> c \<and> c \<le> 0x39) \<or> (0x41 \<le> c \<and> c \<le> 0x5A) \<or> (0x61 \<le> c \<and> c \<le> 0x7A)
     \<or> c \<in> of_char ` set ''_@%+=:,./-''"

definition shlex_quote :: "str \<Rightarrow> str" where
  "shlex_quote s =
     (if s = [] then ascii [CHR 0x27, CHR 0x27]
      else if \<forall>c \<in> set s. shlex_safe c then s
      else ascii [CHR 0x27]
           @ concat (map (\<lambda>c. if c = 0x27
                               then ascii [CHR 0x27, CHR 0x22, CHR 0x27, CHR 0x22, CHR 0x27]
                               else [c]) s)
           @ ascii [CHR 0x27])"

fun join :: "str \<Rightarrow> str list \<Rightarrow> str" where
  "join sep [] = []"
| "join sep [x] = x"
| "join sep (x # y # ys) = x @ sep @ join sep (y # ys)"

definition shlex_join :: "str list \<Rightarrow> str" where
  "shlex_join args = join (ascii '' '') (map shlex_quote args)"

fun digits :: "nat \<Rightarrow> str" where
  "digits n = (if n < 10 then [0x30 + n] else digits (n div 10) @ [0x30 + n mod 10])"

definition repr_int :: "int \<Rightarrow> str" where
  "repr_int i = (if i < 0 then ascii ''-'' @ digits (nat (- i)) else digits (nat i))"

section \<open>The logging boundary\<close>

text \<open>
  A log event is one call on the module's \<^verbatim>\<open>LOGGER\<close>: the level of the method called
  (\<^verbatim>\<open>logging.DEBUG\<close> is 10, \<^verbatim>\<open>logging.ERROR\<close> is 40), the message object and the
  positional arguments that the logger would substitute into it. What the logging
  library does with the call afterwards is outside the module.
\<close>

datatype log_call = LogCall (lvl: int) (msg: pyval) (fmt_args: "str list")

definition DEBUG :: int where
  "DEBUG = 10"

definition ERROR :: int where
  "ERROR = 40"

text \<open>
  A computation that may raise and that logs on the way: its outcome and the calls it
  made on the logger, in order. The calls made before an exception are kept.
\<close>

type_synonym 'a logged = "(error + 'a) \<times> log_call list"

definition ret :: "'a \<Rightarrow> 'a logged" where
  "ret x = (Inr x, [])"

definition raise :: "error \<Rightarrow> 'a logged" where
  "raise e = (Inl e, [])"

definition lift :: "error + 'a \<Rightarrow> 'a logged" where
  "lift r = (r, [])"

definition and_then :: "'a logged \<Rightarrow> ('a \<Rightarrow> 'b logged) \<Rightarrow> 'b logged" where
  "and_then m f =
     (case m of
        (Inl e, l) \<Rightarrow> (Inl e, l)
      | (Inr x, l) \<Rightarrow> (case f x of (r, l') \<Rightarrow> (r, l @ l')))"

text \<open>\<^verbatim>\<open>LOGGER.debug(*t)\<close> for a tuple \<open>t\<close> of a format string and its arguments.\<close>

definition LOGGER_debug :: "str \<times> str list \<Rightarrow> unit logged" where
  "LOGGER_debug t = (Inr (), [LogCall DEBUG (Str (fst t)) (snd t)])"

definition LOGGER_error :: "pyval \<Rightarrow> unit logged" where
  "LOGGER_error m = (Inr (), [LogCall ERROR m []])"

section \<open>Stream classifier and result record\<close>

datatype ProcStreamClassifier = PSC_OUTPUT | PSC_STDOUT | PSC_STDERR

fun name :: "ProcStreamClassifier \<Rightarrow> str" where
  "name PSC_OUTPUT = ascii ''OUTPUT''"
| "name PSC_STDOUT = ascii ''STDOUT''"
| "name PSC_STDERR = ascii ''STDERR''"

text \<open>
  \<^verbatim>\<open>ProcData\<close>: the two private buffers, the decode flag and the exit code. The
  constructor leaves the buffers empty and the exit code 0.
\<close>

record ProcData =
  decode_output :: bool
  priv_stdout :: bytes
  priv_stderr :: bytes
  retcode :: int

definition ProcData_init :: "bool \<Rightarrow> ProcData" where
  "ProcData_init d = \<lparr>decode_output = d, priv_stdout = [], priv_stderr = [], retcode = 0\<rparr>"

text \<open>The properties \<^verbatim>\<open>stdout\<close> and \<^verbatim>\<open>stderr\<close> decode on access when asked to.\<close>

definition stdout_prop :: "ProcData \<Rightarrow> error + pyval" where
  "stdout_prop p =
     (if decode_output p then map_sum id Str (decode (priv_stdout p))
      else Inr (Bytes (priv_stdout p)))"

definition stderr_prop :: "ProcData \<Rightarrow> error + pyval" where
  "stderr_prop p =
     (if decode_output p then map_sum id Str (decode (priv_stderr p))
      else Inr (Bytes (priv_stderr p)))"

section \<open>Formatting\<close>

text \<open>The escape sequences of \<^verbatim>\<open>colorama\<close> that the module uses.\<close>

definition esc :: "string \<Rightarrow> str" where
  "esc code = [0x1B] @ ascii (''['' @ code @ ''m'')"

definition Fore_WHITE :: str where "Fore_WHITE = esc ''37''"
definition Fore_BLUE :: str where "Fore_BLUE = esc ''34''"
definition Fore_YELLOW :: str where "Fore_YELLOW = esc ''33''"
definition Fore_LIGHTBLACK_EX :: str where "Fore_LIGHTBLACK_EX = esc ''90''"
definition Style_BRIGHT :: str where "Style_BRIGHT = esc ''1''"
definition Style_RESET_ALL :: str where "Style_RESET_ALL = esc ''0''"

definition fmt_proc_cmd :: "str list \<Rightarrow> str \<times> str list" where
  "fmt_proc_cmd args =
     (ascii ''%s[executing]%s `%s`'',
      [Fore_WHITE @ Style_BRIGHT, Style_RESET_ALL, shlex_join args])"

text \<open>
  The colour chosen by the two conditionals of \<^verbatim>\<open>_fmt_proc_output\<close>; every member of
  the enumeration binds it.
\<close>

fun fore_color :: "ProcStreamClassifier \<Rightarrow> str" where
  "fore_color PSC_OUTPUT = Fore_LIGHTBLACK_EX"
| "fore_color PSC_STDOUT = Fore_BLUE"
| "fore_color PSC_STDERR = Fore_YELLOW"

definition line_format :: str where
  "line_format = ascii ''    %s[%s]%s %s%s%s'' @ [0x0D]"

definition fmt_proc_output :: "ProcStreamClassifier \<Rightarrow> str \<Rightarrow> str \<times> str list" where
  "fmt_proc_output stream_class line =
     (line_format,
      [fore_color stream_class @ Style_BRIGHT,
       name stream_class,
       Style_RESET_ALL,
       fore_color stream_class,
       strip line,
       Style_RESET_ALL])"

section \<open>Line drain\<close>

text \<open>
  A readable binary stream is the bytes still to come. \<^verbatim>\<open>readline\<close> takes everything
  up to and including the first newline, or all that is left when there is none.
\<close>

definition readline :: "bytes \<Rightarrow> bytes \<times> bytes" where
  "readline s =
     (case dropWhile (\<lambda>c. c \<noteq> CHR 0x0A) s of
        [] \<Rightarrow> (s, [])
      | n # r \<Rightarrow> (takeWhile (\<lambda>c. c \<noteq> CHR 0x0A) s @ [n], r))"

text \<open>
  The loop \<^verbatim>\<open>for raw_line in stream\<close> of \<^verbatim>\<open>_iterate_proc_output\<close>: iteration stops when
  \<^verbatim>\<open>readline\<close> has nothing left to return.
\<close>

function for_raw_line :: "ProcStreamClassifier \<Rightarrow> bytes \<Rightarrow> bytes \<Rightarrow> bytes logged" where
  "for_raw_line stream_class stream accumulated_output =
     (if stream = [] then ret accumulated_output
      else
        and_then (lift (decode (fst (readline stream)))) (\<lambda>line.
        and_then (LOGGER_debug (fmt_proc_output stream_class line)) (\<lambda>_.
        for_raw_line stream_class (snd (readline stream))
          (accumulated_output @ fst (readline stream)))))"
  by pat_completeness auto
termination
proof (relation "measure (\<lambda>(c, s, a). length s)")
  show "wf (measure (\<lambda>(c, s, a). length s))"
    by simp
next
  fix stream_class :: ProcStreamClassifier and stream accumulated_output :: bytes
  assume "stream \<noteq> []"
  moreover have "length (dropWhile (\<lambda>c. c \<noteq> CHR 0x0A) stream) \<le> length stream"
    by (rule length_dropWhile_le)
  ultimately have "length (snd (readline stream)) < length stream"
    by (auto simp: readline_def split: list.splits)
  then show "((stream_class, snd (readline stream), accumulated_output @ fst (readline stream)), stream_class, stream, accumulated_output)
    \<in> measure (\<lambda>(c, s, a). length s)"
    by simp
qed

text \<open>The lines that the iteration yields, for stating what the loop does.\<close>

function lines_of :: "bytes \<Rightarrow> bytes list" where
  "lines_of stream =
     (if stream = [] then [] else fst (readline stream) # lines_of (snd (readline stream)))"
  by pat_completeness auto
termination
proof (relation "measure length")
  show "wf (measure (length :: bytes \<Rightarrow> nat))"
    by simp
next
  fix stream :: bytes
  assume "stream \<noteq> []"
  moreover have "length (dropWhile (\<lambda>c. c \<noteq> CHR 0x0A) stream) \<le> length stream"
    by (rule length_dropWhile_le)
  ultimately have "length (snd (readline stream)) < length stream"
    by (auto simp: readline_def split: list.splits)
  then show "(snd (readline stream), stream) \<in> measure length"
    by simp
qed

text \<open>Iterating over \<^verbatim>\<open>None\<close> raises \<^verbatim>\<open>TypeError\<close>.\<close>

definition iterate_proc_output :: "bytes option \<Rightarrow> ProcStreamClassifier \<Rightarrow> bytes logged" where
  "iterate_proc_output stream stream_class =
     (case stream of
        None \<Rightarrow> raise TypeError
      | Some s \<Rightarrow> for_raw_line stream_class s [])"

text \<open>
  In \<^verbatim>\<open>_iterate_proc_output_async\<close> the line \<^verbatim>\<open>accumulated_output: b''\<close> is an annotation:
  it makes the name local and binds nothing. The local is therefore \<open>None\<close> (unbound)
  when the loop starts, and reading it raises \<^verbatim>\<open>UnboundLocalError\<close>.
\<close>

definition read_local :: "'a option \<Rightarrow> error + 'a" where
  "read_local v = (case v of None \<Rightarrow> Inl UnboundLocalError | Some x \<Rightarrow> Inr x)"

function async_for_raw_line ::
  "ProcStreamClassifier \<Rightarrow> bytes \<Rightarrow> bytes option \<Rightarrow> bytes logged" where
  "async_for_raw_line stream_class stream accumulated_output =
     (if stream = [] then lift (read_local accumulated_output)
      else
        and_then (lift (decode (fst (readline stream)))) (\<lambda>line.
        and_then (LOGGER_debug (fmt_proc_output stream_class line)) (\<lambda>_.
        and_then (lift (read_local accumulated_output)) (\<lambda>acc.
        async_for_raw_line stream_class (snd (readline stream))
          (Some (acc @ fst (readline stream)))))))"
  by pat_completeness auto
termination
proof (relation "measure (\<lambda>(c, s, a). length s)")
  show "wf (measure (\<lambda>(c, s, a). length s))"
    by simp
next
  fix stream_class :: ProcStreamClassifier and stream :: bytes and accumulated_output :: "bytes option" and x xa acc
  assume "stream \<noteq> []"
  moreover have "length (dropWhile (\<lambda>c. c \<noteq> CHR 0x0A) stream) \<le> length stream"
    by (rule length_dropWhile_le)
  ultimately have "length (snd (readline stream)) < length stream"
    by (auto simp: readline_def split: list.splits)
  then show "((stream_class, snd (readline stream), Some (acc @ fst (readline stream))), stream_class, stream, accumulated_output)
    \<in> measure (\<lambda>(c, s, a). length s)"
    by simp
qed

definition iterate_proc_output_async ::
  "bytes option \<Rightarrow> ProcStreamClassifier \<Rightarrow> bytes logged" where
  "iterate_proc_output_async stream stream_class =
     (case stream of
        None \<Rightarrow> raise TypeError
      | Some s \<Rightarrow> async_for_raw_line stream_class s None)"

section \<open>Result reporter\<close>

text \<open>
  \<^verbatim>\<open>_display_proc_result\<close>. The last argument is what \<^verbatim>\<open>LOGGER.getEffectiveLevel()\<close>
  returns. Each use of \<^verbatim>\<open>proc_data.stdout\<close> and \<^verbatim>\<open>proc_data.stderr\<close> goes through the
  property, which may raise when it decodes.
\<close>

definition returned_message :: "str list \<Rightarrow> int \<Rightarrow> str" where
  "returned_message args rc =
     ascii ''`'' @ shlex_join args @ ascii ''` returned: '' @ repr_int rc"

definition display_proc_result :: "str list \<Rightarrow> bool \<Rightarrow> ProcData \<Rightarrow> int \<Rightarrow> unit logged" where
  "display_proc_result args ignore_retcode proc_data effective_level =
     (if \<not> ignore_retcode \<and> retcode proc_data \<noteq> 0 then
        and_then (LOGGER_error (Str (returned_message args (retcode proc_data)))) (\<lambda>_.
        if effective_level > DEBUG then
          and_then (lift (stdout_prop proc_data)) (\<lambda>out.
          and_then (if truthy_val out
                    then and_then (lift (stdout_prop proc_data)) LOGGER_error
                    else ret ()) (\<lambda>_.
          and_then (lift (stderr_prop proc_data)) (\<lambda>err.
          if truthy_val err
          then and_then (lift (stderr_prop proc_data)) LOGGER_error
          else ret ())))
        else ret ())
      else ret ())"

section \<open>The child process as the launcher sees it\<close>

text \<open>The constants of \<^verbatim>\<open>subprocess\<close> that the module re-exports.\<close>

definition PIPE :: int where "PIPE = - 1"
definition STDOUT :: int where "STDOUT = - 2"
definition DEVNULL :: int where "DEVNULL = - 3"

text \<open>Truthiness of an argument of type \<^verbatim>\<open>int | None\<close>.\<close>

definition truthy :: "int option \<Rightarrow> bool" where
  "truthy v \<longleftrightarrow> v \<noteq> None \<and> v \<noteq> Some 0"

text \<open>
  One run of a child, seen from the parent: whether the process could be created,
  whether the input could be written, the bytes that arrive on the stdout pipe and on
  the stderr pipe until the child closes them, the exit status, and the logger's
  effective level. With stderr redirected to stdout, \<open>stdout_pipe\<close> is the merged
  stream in the order the operating system delivered it.
\<close>

record world =
  spawn_ok :: bool
  write_ok :: bool
  stdout_pipe :: bytes
  stderr_pipe :: bytes
  exit_status :: int
  effective_level :: int

text \<open>
  The attributes of a \<^verbatim>\<open>subprocess.Popen\<close> object that the launcher reads. A stream
  attribute is a reader only when the corresponding argument was \<^verbatim>\<open>PIPE\<close>; for every
  other argument (\<^verbatim>\<open>None\<close>, \<^verbatim>\<open>DEVNULL\<close>, \<^verbatim>\<open>STDOUT\<close>, a file descriptor) it is \<^verbatim>\<open>None\<close>.
\<close>

record Popen =
  proc_stdout :: "bytes option"
  proc_stderr :: "bytes option"
  returncode :: int

definition subprocess_Popen :: "world \<Rightarrow> int option \<Rightarrow> int option \<Rightarrow> error + Popen" where
  "subprocess_Popen w stdout stderr =
     (if spawn_ok w then
        Inr \<lparr>proc_stdout = (if stdout = Some PIPE then Some (stdout_pipe w) else None),
             proc_stderr = (if stderr = Some PIPE then Some (stderr_pipe w) else None),
             returncode = exit_status w\<rparr>
      else Inl SpawnFailure)"

text \<open>\<^verbatim>\<open>proc_desc.stdin.write(input)\<close> followed by \<^verbatim>\<open>proc_desc.stdin.flush()\<close>.\<close>

definition stdin_write :: "world \<Rightarrow> bytes \<Rightarrow> error + unit" where
  "stdin_write w data = (if write_ok w then Inr () else Inl InputWriteFailure)"

section \<open>Blocking launcher\<close>

text \<open>
  \<^verbatim>\<open>exec_cmd\<close>, statement by statement. The pass-through keyword arguments and \<^verbatim>\<open>cwd\<close>
  reach only \<^verbatim>\<open>Popen\<close>; their effect is part of the \<open>world\<close>.
\<close>

definition exec_cmd ::
  "str list \<Rightarrow> bytes option \<Rightarrow> int option \<Rightarrow> int option \<Rightarrow> bool \<Rightarrow> bool \<Rightarrow> world
   \<Rightarrow> ProcData logged" where
  "exec_cmd args input stdout stderr ignore_retcode decode_output' w =
     and_then (LOGGER_debug (fmt_proc_cmd args)) (\<lambda>_.
     and_then (lift (subprocess_Popen w stdout stderr)) (\<lambda>proc_desc.
     and_then (case input of None \<Rightarrow> ret () | Some data \<Rightarrow> lift (stdin_write w data)) (\<lambda>_.
     and_then
       (if truthy stdout then
          and_then
            (iterate_proc_output (proc_stdout proc_desc)
               (if stderr = Some STDOUT then PSC_OUTPUT else PSC_STDOUT)) (\<lambda>lines.
          ret ((ProcData_init decode_output')\<lparr>priv_stdout := lines\<rparr>))
        else ret (ProcData_init decode_output')) (\<lambda>proc_data.
     and_then
       (if truthy stderr \<and> stderr \<noteq> Some STDOUT then
          and_then (iterate_proc_output (proc_stderr proc_desc) PSC_STDERR) (\<lambda>lines.
          ret (proc_data\<lparr>priv_stderr := lines\<rparr>))
        else ret proc_data) (\<lambda>proc_data.
     and_then (ret (proc_data\<lparr>retcode := returncode proc_desc\<rparr>)) (\<lambda>proc_data.
     and_then (display_proc_result args ignore_retcode proc_data (effective_level w)) (\<lambda>_.
     ret proc_data)))))))"

section \<open>Cooperative launcher\<close>

text \<open>
  In \<^verbatim>\<open>exec_cmd_async\<close> the call \<^verbatim>\<open>asyncio.create_subprocess_exec(...)\<close> is not awaited, so
  \<^verbatim>\<open>proc_desc\<close> is the coroutine object itself and no process is created. Evaluating the
  arguments of that call reads \<^verbatim>\<open>args[0]\<close>.
\<close>

datatype coroutine = Coroutine

definition create_subprocess_exec :: "str list \<Rightarrow> error + coroutine" where
  "create_subprocess_exec args = (case args of [] \<Rightarrow> Inl IndexError | _ # _ \<Rightarrow> Inr Coroutine)"

text \<open>
  A coroutine object has none of the attributes \<^verbatim>\<open>stdin\<close>, \<^verbatim>\<open>stdout\<close>, \<^verbatim>\<open>stderr\<close> and
  \<^verbatim>\<open>returncode\<close>: reading one raises \<^verbatim>\<open>AttributeError\<close>, whatever would have been done
  with the value.
\<close>

definition coroutine_getattr :: "coroutine \<Rightarrow> string \<Rightarrow> error + 'a" where
  "coroutine_getattr c attr = Inl AttributeError"

text \<open>
  Each statement of \<^verbatim>\<open>exec_cmd_async\<close> after the creation of the coroutine begins by
  reading an attribute of \<^verbatim>\<open>proc_desc\<close>. In the two drain statements the attribute is
  an argument of the call of \<^verbatim>\<open>_iterate_proc_output_async\<close>, so it is read before that
  call and before the assignment to \<^verbatim>\<open>proc_data\<close>.
\<close>

definition exec_cmd_async ::
  "str list \<Rightarrow> bytes option \<Rightarrow> int option \<Rightarrow> int option \<Rightarrow> bool \<Rightarrow> bool \<Rightarrow> world
   \<Rightarrow> ProcData logged" where
  "exec_cmd_async args input stdout stderr ignore_retcode decode_output' w =
     and_then (LOGGER_debug (fmt_proc_cmd args)) (\<lambda>_.
     and_then (lift (create_subprocess_exec args)) (\<lambda>proc_desc.
     and_then (case input of
                 None \<Rightarrow> ret ()
               | Some data \<Rightarrow> lift (coroutine_getattr proc_desc ''stdin'')) (\<lambda>_.
     and_then (if truthy stdout
               then lift (coroutine_getattr proc_desc ''stdout'')
               else ret ()) (\<lambda>_.
     and_then (if truthy stderr \<and> stderr \<noteq> Some STDOUT
               then lift (coroutine_getattr proc_desc ''stderr'')
               else ret ()) (\<lambda>_.
     and_then (lift (coroutine_getattr proc_desc ''returncode'')) (\<lambda>rc.
     and_then (ret ((ProcData_init decode_output')\<lparr>retcode := rc\<rparr>)) (\<lambda>proc_data.
     and_then (display_proc_result args ignore_retcode proc_data (effective_level w)) (\<lambda>_.
     ret proc_data))))))))"

section \<open>Vocabulary of the statements\<close>

text \<open>The event that \<^verbatim>\<open>exec_cmd\<close> and \<^verbatim>\<open>exec_cmd_async\<close> log first: the command line.\<close>

definition cmd_event :: "str list \<Rightarrow> log_call" where
  "cmd_event args = LogCall DEBUG (Str (fst (fmt_proc_cmd args))) (snd (fmt_proc_cmd args))"

text \<open>
  \<open>line_event c raw ev\<close>: the raw line decodes, and \<open>ev\<close> is the debug call that the
  drain makes for it under classifier \<open>c\<close>.
\<close>

definition line_event :: "ProcStreamClassifier \<Rightarrow> bytes \<Rightarrow> log_call \<Rightarrow> bool" where
  "line_event stream_class raw_line ev =
     (case decode raw_line of
        Inl _ \<Rightarrow> False
      | Inr line \<Rightarrow>
          ev = LogCall DEBUG (Str (fst (fmt_proc_output stream_class line)))
                 (snd (fmt_proc_output stream_class line)))"

text \<open>A stream is decodable when each of its lines is well-formed UTF-8.\<close>

definition decodable :: "bytes \<Rightarrow> bool" where
  "decodable stream = list_all (\<lambda>raw_line. utf8 (map of_char raw_line) \<noteq> None) (lines_of stream)"

section \<open>Example runs\<close>

text \<open>A child that prints nothing and exits with status 0; the logger is at INFO.\<close>

definition run_true :: world where
  "run_true = \<lparr>spawn_ok = True, write_ok = True, stdout_pipe = [], stderr_pipe = [],
                exit_status = 0, effective_level = 20\<rparr>"

text \<open>\<^verbatim>\<open>printf 'a\nb\nc'\<close>: three lines on stdout, the last one unterminated.\<close>

definition run_printf :: world where
  "run_printf = \<lparr>spawn_ok = True, write_ok = True,
                  stdout_pipe = [CHR ''a'', CHR 0x0A, CHR ''b'', CHR 0x0A, CHR ''c''],
                  stderr_pipe = [], exit_status = 0, effective_level = 20\<rparr>"

text \<open>
  A child whose stderr is merged into stdout, which writes one line to each and exits
  with status 7.
\<close>

definition run_merged :: world where
  "run_merged = \<lparr>spawn_ok = True, write_ok = True,
                  stdout_pipe = [CHR ''o'', CHR 0x0A, CHR ''e''], stderr_pipe = [],
                  exit_status = 7, effective_level = 20\<rparr>"

text \<open>A result record of a command that failed with output on stderr only.\<close>

definition failed_quietly :: ProcData where
  "failed_quietly = \<lparr>decode_output = True, priv_stdout = [], priv_stderr = ''e'', retcode = 1\<rparr>"

text \<open>The line \<^verbatim>\<open>b'  a \n'\<close>, with whitespace on both sides.\<close>

definition indented_line :: bytes where
  "indented_line = [CHR '' '', CHR '' '', CHR ''a'', CHR '' '', CHR 0x0A]"

text \<open>
  A result record of a command that failed with output on both streams.
\<close>

definition failed_loudly :: ProcData where
  "failed_loudly = \<lparr>decode_output = True, priv_stdout = ''o'', priv_stderr = ''e'', retcode = 1\<rparr>"

text \<open>
  Three runs that end before the drains: the executable does not exist; the child has
  closed its standard input; the child writes a byte that is not UTF-8 to stdout.
\<close>

definition run_enoent :: world where
  "run_enoent = \<lparr>spawn_ok = False, write_ok = True, stdout_pipe = [], stderr_pipe = [],
                  exit_status = 0, effective_level = 20\<rparr>"

definition run_closed_stdin :: world where
  "run_closed_stdin = \<lparr>spawn_ok = True, write_ok = False, stdout_pipe = [], stderr_pipe = [],
                        exit_status = 0, effective_level = 20\<rparr>"

definition run_binary :: world where
  "run_binary = \<lparr>spawn_ok = True, write_ok = True, stdout_pipe = [CHR 0xFF, CHR 0x0A],
                  stderr_pipe = [], exit_status = 0, effective_level = 20\<rparr>"

section \<open>Laws of the logging computations\<close>

declare for_raw_line.simps [simp del] async_for_raw_line.simps [simp del] lines_of.simps [simp del]

lemma and_then_ret [simp]: "and_then (ret x) f = f x"
  by (simp add: and_then_def ret_def split: prod.splits)

lemma and_then_raise [simp]: "and_then (raise e) f = raise e"
  by (simp add: and_then_def raise_def)

lemma and_then_lift_Inl [simp]: "and_then (lift (Inl e)) f = raise e"
  by (simp add: and_then_def raise_def lift_def)

lemma and_then_lift_Inr [simp]: "and_then (lift (Inr x)) f = f x"
  by (simp add: and_then_def lift_def split: prod.splits)

lemma and_then_debug [simp]:
  "and_then (LOGGER_debug t) f = (fst (f ()), LogCall DEBUG (Str (fst t)) (snd t) # snd (f ()))"
  by (simp add: and_then_def LOGGER_debug_def split: prod.splits)

lemma and_then_error [simp]:
  "and_then (LOGGER_error m) f = (fst (f ()), LogCall ERROR m [] # snd (f ()))"
  by (simp add: and_then_def LOGGER_error_def split: prod.splits)

lemma fst_and_then:
  "fst (and_then m f) = (case fst m of Inl e \<Rightarrow> Inl e | Inr x \<Rightarrow> fst (f x))"
  by (simp add: and_then_def split: prod.splits sum.splits)

lemma snd_and_then:
  "snd (and_then m f) = (case fst m of Inl e \<Rightarrow> snd m | Inr x \<Rightarrow> snd m @ snd (f x))"
  by (simp add: and_then_def split: prod.splits sum.splits)

lemma readline_append: "fst (readline s) @ snd (readline s) = s"
  by (auto simp: readline_def split: list.splits) (metis takeWhile_dropWhile_id)

lemma readline_nonempty: "s \<noteq> [] \<Longrightarrow> fst (readline s) \<noteq> []"
  by (auto simp: readline_def split: list.splits)

lemma concat_lines_of: "concat (lines_of s) = s"
proof (induction s rule: lines_of.induct)
  case (1 stream)
  show ?case
  proof (cases "stream = []")
    case True
    then show ?thesis by (simp add: lines_of.simps)
  next
    case False
    with 1 have "concat (lines_of (snd (readline stream))) = snd (readline stream)" by simp
    with False show ?thesis
      by (subst lines_of.simps) (simp add: readline_append)
  qed
qed

lemma for_raw_line_Inr:
  "for_raw_line sc s acc = (Inr out, log) \<Longrightarrow>
     out = acc @ s \<and> list_all2 (line_event sc) (lines_of s) log"
proof (induction sc s acc arbitrary: out log rule: for_raw_line.induct)
  case (1 sc stream acc)
  show ?case
  proof (cases "stream = []")
    case True
    with "1.prems" show ?thesis
      by (simp add: for_raw_line.simps lines_of.simps ret_def)
  next
    case False
    obtain line where d: "decode (fst (readline stream)) = Inr line"
      using "1.prems" False
      by (cases "decode (fst (readline stream))") (auto simp: for_raw_line.simps raise_def)
    obtain r l where rec: "for_raw_line sc (snd (readline stream)) (acc @ fst (readline stream)) = (r, l)"
      by (cases "for_raw_line sc (snd (readline stream)) (acc @ fst (readline stream))")
    from "1.prems" False d rec have r: "r = Inr out"
      and lg: "log = LogCall DEBUG (Str (fst (fmt_proc_output sc line)))
                 (snd (fmt_proc_output sc line)) # l"
      by (auto simp: for_raw_line.simps [of sc stream])
    from "1.IH" [OF False rec [unfolded r]]
    have ih: "out = (acc @ fst (readline stream)) @ snd (readline stream)"
         "list_all2 (line_event sc) (lines_of (snd (readline stream))) l"
      by auto
    show ?thesis using ih False d lg
      by (subst lines_of.simps) (simp add: readline_append line_event_def)
  qed
qed

lemma for_raw_line_decodable:
  "decodable s \<Longrightarrow> fst (for_raw_line sc s acc) = Inr (acc @ s)"
proof (induction sc s acc rule: for_raw_line.induct)
  case (1 sc stream acc)
  show ?case
  proof (cases "stream = []")
    case True
    then show ?thesis by (simp add: for_raw_line.simps ret_def)
  next
    case False
    from "1.prems" False have d: "utf8 (map of_char (fst (readline stream))) \<noteq> None"
      and rest: "decodable (snd (readline stream))"
      unfolding decodable_def by (subst (asm) lines_of.simps, simp)+
    from d obtain line where dl: "decode (fst (readline stream)) = Inr line"
      by (auto simp: decode_def)
    from "1.IH" [OF False rest]
    have "fst (for_raw_line sc (snd (readline stream)) (acc @ fst (readline stream)))
            = Inr ((acc @ fst (readline stream)) @ snd (readline stream))" .
    with False dl show ?thesis
      by (subst for_raw_line.simps) (simp add: readline_append)
  qed
qed

lemma for_raw_line_error:
  "fst (for_raw_line sc s acc) = Inl e \<Longrightarrow> e = UnicodeDecodeError \<and> \<not> decodable s"
proof (induction sc s acc rule: for_raw_line.induct)
  case (1 sc stream acc)
  show ?case
  proof (cases "stream = []")
    case True
    with "1.prems" show ?thesis by (simp add: for_raw_line.simps ret_def)
  next
    case False
    show ?thesis
    proof (cases "decode (fst (readline stream))")
      case (Inl e')
      with "1.prems" False have "e = UnicodeDecodeError"
        by (subst (asm) for_raw_line.simps) (auto simp: decode_def raise_def split: option.splits)
      moreover from Inl False have "\<not> decodable stream"
        unfolding decodable_def by (subst lines_of.simps) (auto simp: decode_def split: option.splits)
      ultimately show ?thesis by simp
    next
      case (Inr line)
      with "1.prems" False
      have "fst (for_raw_line sc (snd (readline stream)) (acc @ fst (readline stream))) = Inl e"
        by (subst (asm) for_raw_line.simps) simp
      from "1.IH" [OF False this]
      have "e = UnicodeDecodeError" and "\<not> decodable (snd (readline stream))" by auto
      moreover from this False have "\<not> decodable stream"
        unfolding decodable_def by (subst lines_of.simps) simp
      ultimately show ?thesis by simp
    qed
  qed
qed

lemma for_raw_line_events:
  "ev \<in> set (snd (for_raw_line sc s acc)) \<Longrightarrow>
     lvl ev = DEBUG \<and> msg ev = Str line_format \<and> fmt_args ev ! 1 = name sc"
proof (induction sc s acc rule: for_raw_line.induct)
  case (1 sc stream acc)
  show ?case
  proof (cases "stream = []")
    case True
    with "1.prems" show ?thesis by (simp add: for_raw_line.simps ret_def)
  next
    case False
    show ?thesis
    proof (cases "decode (fst (readline stream))")
      case (Inl e')
      with "1.prems" False show ?thesis
        by (subst (asm) for_raw_line.simps) (simp add: raise_def)
    next
      case (Inr line)
      with "1.prems" False
      have "ev = LogCall DEBUG (Str (fst (fmt_proc_output sc line))) (snd (fmt_proc_output sc line))
            \<or> ev \<in> set (snd (for_raw_line sc (snd (readline stream)) (acc @ fst (readline stream))))"
        by (subst (asm) for_raw_line.simps) simp
      then show ?thesis
        using "1.IH" [OF False] by (auto simp: fmt_proc_output_def)
    qed
  qed
qed

lemma async_for_raw_line_unbound:
  "\<exists>e. fst (async_for_raw_line sc s None) = Inl e"
proof (cases "s = []")
  case True
  then show ?thesis
    by (subst async_for_raw_line.simps) (simp add: read_local_def lift_def)
next
  case False
  then show ?thesis
    by (subst async_for_raw_line.simps)
       (cases "decode (fst (readline s))"; simp add: read_local_def raise_def)
qed

lemma and_then_Inl: "and_then (Inl e, l) f = (Inl e, l)"
  by (simp add: and_then_def)

lemma and_then_Inr: "and_then (Inr x, l) f = (fst (f x), l @ snd (f x))"
  by (simp add: and_then_def split: prod.splits)

lemmas run_simps = and_then_Inl and_then_Inr ret_def raise_def lift_def LOGGER_debug_def LOGGER_error_def

lemma display_events:
  "ev \<in> set (snd (display_proc_result args ign pd level)) \<Longrightarrow> lvl ev = ERROR"
  by (cases "stdout_prop pd"; cases "stderr_prop pd")
     (auto simp: display_proc_result_def run_simps split: if_splits)

lemma DEBUG_neq_ERROR: "DEBUG \<noteq> ERROR"
  by (simp add: DEBUG_def ERROR_def)

lemma exec_cmd_spawn_failure:
  "\<not> spawn_ok w \<Longrightarrow>
     exec_cmd args input stdout stderr ign dec w = (Inl SpawnFailure, [cmd_event args])"
  by (simp add: exec_cmd_def subprocess_Popen_def cmd_event_def run_simps)

lemma exec_cmd_write_failure:
  "spawn_ok w \<Longrightarrow> input \<noteq> None \<Longrightarrow> \<not> write_ok w \<Longrightarrow>
     exec_cmd args input stdout stderr ign dec w = (Inl InputWriteFailure, [cmd_event args])"
  by (auto simp: exec_cmd_def subprocess_Popen_def stdin_write_def cmd_event_def run_simps)

lemma and_then_assoc: "and_then (and_then m f) g = and_then m (\<lambda>x. and_then (f x) g)"
  by (cases m; cases "fst m") (auto simp: and_then_def split: prod.splits sum.splits)

lemma exec_cmd_normal:
  assumes "spawn_ok w" and "input \<noteq> None \<longrightarrow> write_ok w"
  shows "exec_cmd args input stdout stderr ign dec w =
     and_then (LOGGER_debug (fmt_proc_cmd args)) (\<lambda>_.
     and_then (if truthy stdout
               then iterate_proc_output
                      (if stdout = Some PIPE then Some (stdout_pipe w) else None)
                      (if stderr = Some STDOUT then PSC_OUTPUT else PSC_STDOUT)
               else ret []) (\<lambda>out.
     and_then (if truthy stderr \<and> stderr \<noteq> Some STDOUT
               then iterate_proc_output
                      (if stderr = Some PIPE then Some (stderr_pipe w) else None) PSC_STDERR
               else ret []) (\<lambda>err.
     and_then (display_proc_result args ign
                 \<lparr>decode_output = dec, priv_stdout = out, priv_stderr = err,
                  retcode = exit_status w\<rparr> (effective_level w)) (\<lambda>_.
     ret \<lparr>decode_output = dec, priv_stdout = out, priv_stderr = err,
          retcode = exit_status w\<rparr>))))"
  using assms
  by (cases input)
     (simp_all add: exec_cmd_def subprocess_Popen_def stdin_write_def and_then_assoc
        ProcData_init_def del: and_then_debug)

lemma and_then_const_ret:
  "and_then m (\<lambda>_. ret y) = (case fst m of Inl e \<Rightarrow> Inl e | Inr _ \<Rightarrow> Inr y, snd m)"
  by (cases m; cases "fst m") (auto simp: and_then_def ret_def)

lemma exec_cmd_running:
  assumes "spawn_ok w" and "input \<noteq> None \<longrightarrow> write_ok w"
    and d1: "(if truthy stdout
              then iterate_proc_output
                     (if stdout = Some PIPE then Some (stdout_pipe w) else None)
                     (if stderr = Some STDOUT then PSC_OUTPUT else PSC_STDOUT)
              else ret []) = (r1, l1)"
    and d2: "(if truthy stderr \<and> stderr \<noteq> Some STDOUT
              then iterate_proc_output
                     (if stderr = Some PIPE then Some (stderr_pipe w) else None) PSC_STDERR
              else ret []) = (r2, l2)"
  shows "exec_cmd args input stdout stderr ign dec w =
     (case r1 of
        Inl e \<Rightarrow> (Inl e, cmd_event args # l1)
      | Inr out \<Rightarrow>
          (case r2 of
             Inl e \<Rightarrow> (Inl e, cmd_event args # l1 @ l2)
           | Inr err \<Rightarrow>
               (case fst (display_proc_result args ign
                            \<lparr>decode_output = dec, priv_stdout = out, priv_stderr = err,
                             retcode = exit_status w\<rparr> (effective_level w)) of
                  Inl e \<Rightarrow> Inl e
                | Inr _ \<Rightarrow> Inr \<lparr>decode_output = dec, priv_stdout = out, priv_stderr = err,
                                retcode = exit_status w\<rparr>,
                cmd_event args # l1 @ l2
                @ snd (display_proc_result args ign
                         \<lparr>decode_output = dec, priv_stdout = out, priv_stderr = err,
                          retcode = exit_status w\<rparr> (effective_level w)))))"
  unfolding exec_cmd_normal [OF assms(1,2)] d1 d2
  by (cases r1; cases r2)
     (simp_all add: and_then_Inl and_then_Inr and_then_const_ret cmd_event_def)

lemma ascii_Nil_iff [simp]: "ascii s = [] \<longleftrightarrow> s = []"
  by (simp add: ascii_def)

lemma iterate_None [simp]: "iterate_proc_output None c = (Inl TypeError, [])"
  by (simp add: iterate_proc_output_def raise_def)

lemma iterate_empty [simp]: "iterate_proc_output (Some []) c = (Inr [], [])"
  by (simp add: iterate_proc_output_def for_raw_line.simps ret_def)

section \<open>The line drain\<close>

text \<open>
  The lines the loop sees: none is empty, a newline can only be the last byte of a line,
  and every line but the last ends with one. Together with \<open>concat_lines_of\<close>: the
  stream is cut after each newline, and a final fragment without newline is a line.
\<close>

lemma readline_without_newline:
  "CHR 0x0A \<notin> set s \<Longrightarrow> readline s = (s, [])"
proof -
  assume "CHR 0x0A \<notin> set s"
  then have "dropWhile (\<lambda>c. c \<noteq> CHR 0x0A) s = []"
    by (induction s) auto
  then show ?thesis
    unfolding readline_def by (simp only: list.case)
qed

lemma readline_with_newline:
  assumes "CHR 0x0A \<notin> set a"
  shows "readline (a @ CHR 0x0A # r) = (a @ [CHR 0x0A], r)"
proof -
  from assms have "dropWhile (\<lambda>c. c \<noteq> CHR 0x0A) (a @ CHR 0x0A # r) = CHR 0x0A # r"
    and "takeWhile (\<lambda>c. c \<noteq> CHR 0x0A) (a @ CHR 0x0A # r) = a"
    by (induction a) auto
  then show ?thesis
    unfolding readline_def by (simp only: list.case)
qed

lemma readline_cases:
  obtains "CHR 0x0A \<notin> set s" and "readline s = (s, [])"
  | a r where "s = a @ CHR 0x0A # r" and "CHR 0x0A \<notin> set a"
      and "readline s = (a @ [CHR 0x0A], r)"
proof (cases "CHR 0x0A \<in> set s")
  case False
  with that(1) readline_without_newline show ?thesis by blast
next
  case True
  then obtain a r where "s = a @ CHR 0x0A # r" and "CHR 0x0A \<notin> set a"
    by (auto dest: split_list_first)
  with that(2) readline_with_newline show ?thesis by blast
qed

lemma readline_no_inner_newline: "CHR 0x0A \<notin> set (butlast (fst (readline s)))"
proof (cases s rule: readline_cases)
  case 1
  then show ?thesis
    by (auto dest: in_set_butlastD)
next
  case (2 a r)
  then show ?thesis
    by (simp add: butlast_append)
qed

lemma readline_terminated:
  assumes "snd (readline s) \<noteq> []"
  shows "last (fst (readline s)) = CHR 0x0A"
proof (cases s rule: readline_cases)
  case 1
  with assms show ?thesis by simp
next
  case (2 a r)
  then show ?thesis by simp
qed

lemma lines_of_shape:
  "l \<in> set (lines_of s) \<Longrightarrow> l \<noteq> [] \<and> CHR 0x0A \<notin> set (butlast l)"
proof (induction s rule: lines_of.induct)
  case (1 stream)
  show ?case
  proof (cases "stream = []")
    case True
    with "1.prems" show ?thesis by (simp add: lines_of.simps)
  next
    case False
    with "1.prems" have "l = fst (readline stream) \<or> l \<in> set (lines_of (snd (readline stream)))"
      by (subst (asm) lines_of.simps) simp
    then show ?thesis
    proof
      assume "l = fst (readline stream)"
      with readline_nonempty [OF False] readline_no_inner_newline [of stream]
      show ?thesis by simp
    next
      assume "l \<in> set (lines_of (snd (readline stream)))"
      with "1.IH" [OF False] show ?thesis by simp
    qed
  qed
qed

lemma lines_of_terminated:
  "Suc i < length (lines_of s) \<Longrightarrow> last (lines_of s ! i) = CHR 0x0A"
proof (induction s arbitrary: i rule: lines_of.induct)
  case (1 stream)
  show ?case
  proof (cases "stream = []")
    case True
    with "1.prems" show ?thesis by (simp add: lines_of.simps)
  next
    case False
    then have unfold: "lines_of stream = fst (readline stream) # lines_of (snd (readline stream))"
      by (subst lines_of.simps) simp
    show ?thesis
    proof (cases i)
      case 0
      from "1.prems" unfold have "lines_of (snd (readline stream)) \<noteq> []"
        by auto
      then have "snd (readline stream) \<noteq> []"
        by (subst (asm) lines_of.simps) (simp split: if_splits)
      from readline_terminated [OF this] 0 unfold show ?thesis
        by simp
    next
      case (Suc j)
      with "1.prems" unfold have "Suc j < length (lines_of (snd (readline stream)))"
        by simp
      from "1.IH" [OF False this] Suc unfold show ?thesis
        by simp
    qed
  qed
qed

lemma async_drain_never_returns:
  "\<exists>e. fst (iterate_proc_output_async stream stream_class) = Inl e"
  using async_for_raw_line_unbound
  by (cases stream) (simp_all add: iterate_proc_output_async_def raise_def)

lemma drain_of_decodable:
  "decodable s \<Longrightarrow> fst (iterate_proc_output (Some s) stream_class) = Inr s"
  using for_raw_line_decodable [of s stream_class "[]"]
  by (simp add: iterate_proc_output_def)

lemma line_event_decodes: "line_event c raw ev \<Longrightarrow> utf8 (map of_char raw) \<noteq> None"
  by (auto simp: line_event_def decode_def split: sum.splits option.splits)

lemma for_raw_line_Inr_decodable:
  assumes "fst (for_raw_line c s acc) = Inr out"
  shows "decodable s"
proof -
  obtain log where "for_raw_line c s acc = (Inr out, log)"
    using assms by (cases "for_raw_line c s acc") simp
  from for_raw_line_Inr [OF this]
  have "list_all2 (line_event c) (lines_of s) log" by simp
  then have "\<forall>raw \<in> set (lines_of s). utf8 (map of_char raw) \<noteq> None"
    by (metis in_set_conv_nth line_event_decodes list_all2_conv_all_nth)
  then show ?thesis
    by (simp add: decodable_def list_all_iff)
qed

lemma drain_raises_iff:
  "fst (iterate_proc_output (Some s) stream_class) = Inl e
     \<longleftrightarrow> e = UnicodeDecodeError \<and> \<not> decodable s"
proof (cases "fst (for_raw_line stream_class s [])")
  case (Inl a)
  from for_raw_line_error [OF this] Inl show ?thesis
    by (auto simp: iterate_proc_output_def)
next
  case (Inr out)
  from for_raw_line_Inr_decodable [OF this] Inr show ?thesis
    by (simp add: iterate_proc_output_def)
qed

lemma drain_events:
  "ev \<in> set (snd (iterate_proc_output stream c)) \<Longrightarrow>
     lvl ev = DEBUG \<and> msg ev = Str line_format \<and> fmt_args ev ! 1 = name c"
  using for_raw_line_events [of ev c _ "[]"]
  by (cases stream) (auto simp: iterate_proc_output_def raise_def)

lemma drain_Inr:
  assumes "iterate_proc_output stream c = (Inr out, log)"
  shows "stream = Some out \<and> list_all2 (line_event c) (lines_of out) log"
proof (cases stream)
  case None
  with assms show ?thesis by (simp add: iterate_proc_output_def raise_def)
next
  case (Some s)
  with assms have "for_raw_line c s [] = (Inr out, log)"
    by (simp add: iterate_proc_output_def)
  from for_raw_line_Inr [OF this] Some show ?thesis by simp
qed

lemma utf8_append:
  "utf8 a = Some x \<Longrightarrow> utf8 b = Some y \<Longrightarrow> utf8 (a @ b) = Some (x @ y)"
proof (induction a arbitrary: x rule: utf8.induct)
  case 1
  then show ?case by simp
next
  case (2 b0 bs)
  show ?case
  proof (cases "b0 < 0x80")
    case True
    with "2.prems" obtain x' where "utf8 bs = Some x'" and "x = b0 # x'"
      by auto
    with "2.IH"(1) [OF True this(1) "2.prems"(2)] True show ?thesis by simp
  next
    case F1: False
    show ?thesis
    proof (cases "0xC2 \<le> b0 \<and> b0 \<le> 0xDF")
      case True
      with F1 "2.prems" obtain b1 r x' where bs: "bs = b1 # r" and c: "cont b1"
        and r: "utf8 r = Some x'" and x: "x = ((b0 - 0xC0) * 64 + (b1 - 0x80)) # x'"
        by (auto split: list.splits if_splits)
      from "2.IH"(2) [OF F1 True bs c r "2.prems"(2)] F1 True bs c x show ?thesis by simp
    next
      case F2: False
      show ?thesis
      proof (cases "0xE0 \<le> b0 \<and> b0 \<le> 0xEF")
        case True
        with F1 F2 "2.prems" obtain b1 b2 r x' where bs: "bs = b1 # b2 # r"
          and c: "cont b1 \<and> cont b2 \<and> (b0 = 0xE0 \<longrightarrow> 0xA0 \<le> b1) \<and> (b0 = 0xED \<longrightarrow> b1 \<le> 0x9F)"
          and r: "utf8 r = Some x'"
          and x: "x = ((b0 - 0xE0) * 4096 + (b1 - 0x80) * 64 + (b2 - 0x80)) # x'"
          by (auto split: list.splits if_splits)
        from bs have bs': "bs = b1 # (b2 # r)" "b2 # r = b2 # r" by simp_all
        from "2.IH"(3) [OF F1 F2 True bs' c r "2.prems"(2)] F1 F2 True bs c x
        show ?thesis by simp
      next
        case F3: False
        with F1 F2 "2.prems" have T: "0xF0 \<le> b0 \<and> b0 \<le> 0xF4"
          by (auto split: if_splits)
        with F1 F2 F3 "2.prems" obtain b1 b2 b3 r x' where bs: "bs = b1 # b2 # b3 # r"
          and c: "cont b1 \<and> cont b2 \<and> cont b3
                \<and> (b0 = 0xF0 \<longrightarrow> 0x90 \<le> b1) \<and> (b0 = 0xF4 \<longrightarrow> b1 \<le> 0x8F)"
          and r: "utf8 r = Some x'"
          and x: "x = ((b0 - 0xF0) * 262144 + (b1 - 0x80) * 4096
                          + (b2 - 0x80) * 64 + (b3 - 0x80)) # x'"
          by (auto split: list.splits if_splits)
        from bs have bs': "bs = b1 # (b2 # b3 # r)" "b2 # b3 # r = b2 # (b3 # r)" "b3 # r = b3 # r"
          by simp_all
        from "2.IH"(4) [OF F1 F2 F3 T bs' c r "2.prems"(2)] F1 F2 F3 T bs c x
        show ?thesis by simp
      qed
    qed
  qed
qed

lemma decodable_whole:
  "decodable s \<Longrightarrow> \<exists>text. decode s = Inr text"
proof (induction s rule: lines_of.induct)
  case (1 stream)
  show ?case
  proof (cases "stream = []")
    case True
    then show ?thesis by (simp add: decode_def)
  next
    case False
    from "1.prems" False have d: "utf8 (map of_char (fst (readline stream))) \<noteq> None"
      and rest: "decodable (snd (readline stream))"
      unfolding decodable_def by (subst (asm) lines_of.simps, simp)+
    from "1.IH" [OF False rest] obtain y where "utf8 (map of_char (snd (readline stream))) = Some y"
      by (auto simp: decode_def split: option.splits)
    moreover from d obtain x where "utf8 (map of_char (fst (readline stream))) = Some x"
      by auto
    ultimately have "utf8 (map of_char (fst (readline stream)) @ map of_char (snd (readline stream)))
        = Some (x @ y)"
      by (rule utf8_append [rotated])
    moreover have "map of_char (fst (readline stream)) @ map of_char (snd (readline stream))
        = map of_char stream"
      by (metis map_append readline_append)
    ultimately have "utf8 (map of_char stream) = Some (x @ y)"
      by metis
    then show ?thesis
      by (simp add: decode_def)
  qed
qed

text \<open>
  Claim C6: for every byte stream the line drain returns exactly the concatenation of
  the bytes consumed, and an empty buffer for an empty stream, without raising. The drain
  decodes every line for the logger before it accumulates it, whatever \<^verbatim>\<open>decode_output\<close>
  says, so a line that is not UTF-8 makes it raise \<^verbatim>\<open>UnicodeDecodeError\<close>: for the stream
  \<^verbatim>\<open>b'\xff\n'\<close> nothing is returned. (For decodable streams the claim holds, see
  \<open>drain_of_decodable\<close>.)
\<close>

theorem drain_raises_on_undecodable_line:
  "iterate_proc_output (Some [CHR 0xFF, CHR 0x0A]) PSC_STDOUT = (Inl UnicodeDecodeError, [])"
  by (simp add: iterate_proc_output_def for_raw_line.simps [of _ "[CHR 0xFF, CHR 0x0A]"]
        readline_def decode_def raise_def)

text \<open>
  Claim C4: the blocking and the suspend-capable drain return byte-identical buffers.
  The suspend-capable drain never binds its accumulator, so it raises
  \<^verbatim>\<open>UnboundLocalError\<close> where the blocking drain returns; on the empty stream the blocking
  drain returns the empty buffer and the other one raises.
\<close>

theorem async_drain_differs_on_empty_stream:
  "iterate_proc_output (Some []) PSC_STDOUT = (Inr [], [])
   \<and> iterate_proc_output_async (Some []) PSC_STDOUT = (Inl UnboundLocalError, [])"
  by (simp add: iterate_proc_output_def iterate_proc_output_async_def for_raw_line.simps
        async_for_raw_line.simps ret_def lift_def read_local_def)

subsection \<open>What the logger receives for a line\<close>

lemma strip_both_ends:
  "\<exists>pre suf. line = pre @ strip line @ suf \<and> list_all isspace pre \<and> list_all isspace suf"
proof -
  let ?m = "dropWhile isspace line"
  have "line = takeWhile isspace line @ ?m" by simp
  moreover have "?m = rev (dropWhile isspace (rev ?m)) @ rev (takeWhile isspace (rev ?m))"
    by (metis rev_append rev_rev_ident takeWhile_dropWhile_id)
  ultimately have "line = takeWhile isspace line @ strip line @ rev (takeWhile isspace (rev ?m))"
    by (simp add: strip_def lstrip_def rstrip_def)
  moreover have "list_all isspace (takeWhile isspace line)"
    by (simp add: list_all_iff) (meson set_takeWhileD)
  moreover have "list_all isspace (rev (takeWhile isspace (rev ?m)))"
    by (simp add: list_all_iff) (meson set_takeWhileD)
  ultimately show ?thesis by blast
qed

lemma strip_ends_not_space:
  assumes "strip line \<noteq> []"
  shows "\<not> isspace (hd (strip line)) \<and> \<not> isspace (last (strip line))"
proof -
  let ?m = "dropWhile isspace line"
  let ?r = "dropWhile isspace (rev ?m)"
  have s: "strip line = rev ?r"
    by (simp add: strip_def lstrip_def rstrip_def)
  with assms have r: "?r \<noteq> []" by simp
  have m: "?m \<noteq> []"
  proof
    assume e: "?m = []"
    have "?r = []" unfolding e by simp
    with r show False by simp
  qed
  have "last (strip line) = hd ?r"
    using r by (simp add: s last_rev)
  moreover have "\<not> isspace (hd ?r)"
    using r by (rule hd_dropWhile)
  moreover have "?m = rev ?r @ rev (takeWhile isspace (rev ?m))"
    by (metis rev_append rev_rev_ident takeWhile_dropWhile_id)
  then have "hd ?m = hd (rev ?r)"
    using r by (metis hd_append2 rev_is_Nil_conv)
  then have "hd (strip line) = hd ?m"
    by (simp add: s)
  moreover have "\<not> isspace (hd ?m)"
    using m by (rule hd_dropWhile)
  ultimately show ?thesis by simp
qed

lemma drain_indented_line:
  "iterate_proc_output (Some indented_line) PSC_STDOUT
     = (Inr indented_line,
        [LogCall DEBUG (Str line_format)
           [Fore_BLUE @ Style_BRIGHT, ascii ''STDOUT'', Style_RESET_ALL, Fore_BLUE, ascii ''a'',
            Style_RESET_ALL]])"
  by (simp add: iterate_proc_output_def indented_line_def for_raw_line.simps [of _ "_ # _"]
        for_raw_line.simps [of _ "[]"] readline_def decode_def fmt_proc_output_def ret_def
        strip_def lstrip_def rstrip_def isspace_def ascii_def)

text \<open>
  Claim C7, as stated: only trailing whitespace is stripped from the text handed to the
  logger. It fails: \<^verbatim>\<open>_fmt_proc_output\<close> calls \<^verbatim>\<open>line.strip()\<close>, which strips leading
  whitespace too. For the line \<^verbatim>\<open>b'  a \n'\<close> the logger receives \<^verbatim>\<open>'a'\<close>, while stripping
  the trailing whitespace only would leave \<^verbatim>\<open>'  a'\<close>.
\<close>

theorem drain_strips_leading_whitespace:
  "snd (iterate_proc_output (Some indented_line) PSC_STDOUT)
     = [LogCall DEBUG (Str line_format)
          [Fore_BLUE @ Style_BRIGHT, ascii ''STDOUT'', Style_RESET_ALL, Fore_BLUE, ascii ''a'',
           Style_RESET_ALL]]
   \<and> decode indented_line = Inr (ascii ''  a '' @ [0x0A])
   \<and> rstrip (ascii ''  a '' @ [0x0A]) = ascii ''  a''
   \<and> ascii ''a'' \<noteq> rstrip (ascii ''  a '' @ [0x0A])"
  by (simp add: drain_indented_line)
     (simp add: indented_line_def decode_def rstrip_def isspace_def ascii_def)

text \<open>
  Claim C7, amended: for every drained line, whitespace is stripped at both ends of the
  text handed to the logger (the fifth argument of the debug call), and nothing else is
  removed; the bytes appended to the accumulated buffer are kept verbatim, so a drain
  that returns gives back the stream it read.
\<close>

theorem drain_logs_stripped_keeps_verbatim:
  assumes "iterate_proc_output (Some stream) stream_class = (Inr out, log)"
  shows "out = stream
         \<and> concat (lines_of stream) = stream
         \<and> list_all2
             (\<lambda>raw_line ev.
                \<exists>line pre suf.
                  decode raw_line = Inr line
                  \<and> line = pre @ fmt_args ev ! 4 @ suf
                  \<and> list_all isspace pre \<and> list_all isspace suf
                  \<and> (fmt_args ev ! 4 \<noteq> [] \<longrightarrow>
                       \<not> isspace (hd (fmt_args ev ! 4)) \<and> \<not> isspace (last (fmt_args ev ! 4))))
             (lines_of stream) log"
proof -
  from drain_Inr [OF assms]
  have events: "list_all2 (line_event stream_class) (lines_of out) log" and out: "out = stream"
    by auto
  have "\<exists>line pre suf.
          decode raw = Inr line
          \<and> line = pre @ fmt_args ev ! 4 @ suf
          \<and> list_all isspace pre \<and> list_all isspace suf
          \<and> (fmt_args ev ! 4 \<noteq> [] \<longrightarrow>
               \<not> isspace (hd (fmt_args ev ! 4)) \<and> \<not> isspace (last (fmt_args ev ! 4)))"
    if "line_event stream_class raw ev" for raw ev
  proof -
    from that obtain line where d: "decode raw = Inr line"
      and ev: "fmt_args ev ! 4 = strip line"
      by (auto simp: line_event_def fmt_proc_output_def split: sum.splits)
    from strip_both_ends [of line] strip_ends_not_space [of line] d ev
    show ?thesis by auto
  qed
  with events have "list_all2
             (\<lambda>raw_line ev.
                \<exists>line pre suf.
                  decode raw_line = Inr line
                  \<and> line = pre @ fmt_args ev ! 4 @ suf
                  \<and> list_all isspace pre \<and> list_all isspace suf
                  \<and> (fmt_args ev ! 4 \<noteq> [] \<longrightarrow>
                       \<not> isspace (hd (fmt_args ev ! 4)) \<and> \<not> isspace (last (fmt_args ev ! 4))))
             (lines_of out) log"
    by (rule list_all2_mono)
  with out show ?thesis
    by (simp add: concat_lines_of)
qed

text \<open>
  The amended claim C7 at the line \<^verbatim>\<open>b'  a \n'\<close>: the drain returns it unchanged and logs
  \<^verbatim>\<open>'a'\<close>.
\<close>

theorem drain_logs_stripped_keeps_verbatim_witness:
  "iterate_proc_output (Some indented_line) PSC_STDOUT
     = (Inr indented_line,
        [LogCall DEBUG (Str line_format)
           [Fore_BLUE @ Style_BRIGHT, ascii ''STDOUT'', Style_RESET_ALL, Fore_BLUE, ascii ''a'',
            Style_RESET_ALL]])
   \<and> concat (lines_of indented_line) = indented_line
   \<and> list_all2
        (\<lambda>raw_line ev.
           \<exists>line pre suf.
             decode raw_line = Inr line
             \<and> line = pre @ fmt_args ev ! 4 @ suf
             \<and> list_all isspace pre \<and> list_all isspace suf
             \<and> (fmt_args ev ! 4 \<noteq> [] \<longrightarrow>
                  \<not> isspace (hd (fmt_args ev ! 4)) \<and> \<not> isspace (last (fmt_args ev ! 4))))
        (lines_of indented_line)
        [LogCall DEBUG (Str line_format)
           [Fore_BLUE @ Style_BRIGHT, ascii ''STDOUT'', Style_RESET_ALL, Fore_BLUE, ascii ''a'',
            Style_RESET_ALL]]"
  using drain_logs_stripped_keeps_verbatim [OF drain_indented_line] drain_indented_line
  by simp

section \<open>The result reporter\<close>

lemma display_quiet:
  "ign \<or> retcode pd = 0 \<Longrightarrow> display_proc_result args ign pd level = (Inr (), [])"
  by (auto simp: display_proc_result_def ret_def)

lemma display_debug_level:
  "\<not> ign \<Longrightarrow> retcode pd \<noteq> 0 \<Longrightarrow> level \<le> DEBUG \<Longrightarrow>
     display_proc_result args ign pd level
       = (Inr (), [LogCall ERROR (Str (returned_message args (retcode pd))) []])"
  by (simp add: display_proc_result_def ret_def)

lemma display_coarse_level:
  assumes "\<not> ign" and "retcode pd \<noteq> 0" and "level > DEBUG"
  shows "display_proc_result args ign pd level =
     (case stdout_prop pd of
        Inl e \<Rightarrow> (Inl e, [LogCall ERROR (Str (returned_message args (retcode pd))) []])
      | Inr out \<Rightarrow>
          (case stderr_prop pd of
             Inl e \<Rightarrow> (Inl e, LogCall ERROR (Str (returned_message args (retcode pd))) []
                               # (if truthy_val out then [LogCall ERROR out []] else []))
           | Inr err \<Rightarrow>
               (Inr (), LogCall ERROR (Str (returned_message args (retcode pd))) []
                         # (if truthy_val out then [LogCall ERROR out []] else [])
                         @ (if truthy_val err then [LogCall ERROR err []] else []))))"
  using assms
  by (cases "stdout_prop pd"; cases "stderr_prop pd")
     (simp_all add: display_proc_result_def run_simps)

lemma display_success [simp]:
  "display_proc_result args ign \<lparr>decode_output = d, priv_stdout = out, priv_stderr = err, retcode = 0\<rparr> level
     = (Inr (), [])"
  by (simp add: display_proc_result_def ret_def)

lemma display_returns:
  assumes "stdout_prop pd = Inr out" and "stderr_prop pd = Inr err"
  shows "fst (display_proc_result args ign pd level) = Inr ()"
proof (cases "\<not> ign \<and> retcode pd \<noteq> 0")
  case True
  then show ?thesis
    using assms display_debug_level [of ign pd level args] display_coarse_level [of ign pd level args]
    by (cases "level \<le> DEBUG") auto
next
  case False
  then show ?thesis
    using display_quiet [of ign pd args level] by auto
qed

lemma display_raises:
  "fst (display_proc_result args ign pd level) = Inl e \<Longrightarrow> e = UnicodeDecodeError"
proof -
  assume a: "fst (display_proc_result args ign pd level) = Inl e"
  have props: "stdout_prop pd = Inl e' \<longrightarrow> e' = UnicodeDecodeError"
    "stderr_prop pd = Inl e' \<longrightarrow> e' = UnicodeDecodeError" for e'
    by (auto simp: stdout_prop_def stderr_prop_def decode_def split: if_splits option.splits)
  show ?thesis
  proof (cases "\<not> ign \<and> retcode pd \<noteq> 0 \<and> level > DEBUG")
    case True
    then have "display_proc_result args ign pd level =
     (case stdout_prop pd of
        Inl e \<Rightarrow> (Inl e, [LogCall ERROR (Str (returned_message args (retcode pd))) []])
      | Inr out \<Rightarrow>
          (case stderr_prop pd of
             Inl e \<Rightarrow> (Inl e, LogCall ERROR (Str (returned_message args (retcode pd))) []
                               # (if truthy_val out then [LogCall ERROR out []] else []))
           | Inr err \<Rightarrow>
               (Inr (), LogCall ERROR (Str (returned_message args (retcode pd))) []
                         # (if truthy_val out then [LogCall ERROR out []] else [])
                         @ (if truthy_val err then [LogCall ERROR err []] else []))))"
      by (intro display_coarse_level) auto
    with a props show ?thesis
      by (auto split: sum.splits)
  next
    case False
    then have "fst (display_proc_result args ign pd level) = Inr ()"
      using display_quiet [of ign pd args level] display_debug_level [of ign pd level args]
      by (cases "ign \<or> retcode pd = 0") auto
    with a show ?thesis by simp
  qed
qed

lemma false_message:
  "returned_message [ascii ''false''] 1 = ascii ''`false` returned: 1''"
  by (simp add: returned_message_def shlex_join_def shlex_quote_def shlex_safe_def repr_int_def
        ascii_def)

lemma sh_message:
  "returned_message [ascii ''sh''] 7 = ascii ''`sh` returned: 7''"
  by (simp add: returned_message_def shlex_join_def shlex_quote_def shlex_safe_def repr_int_def
        ascii_def)

text \<open>
  Claim C8, as stated: unless \<^verbatim>\<open>ignore_retcode\<close> is set or the exit code is 0, the
  result reporter emits exactly one error-level event. It fails: the two aggregated
  buffers are logged with \<^verbatim>\<open>LOGGER.error\<close> as well. For the command \<^verbatim>\<open>false\<close> with \<^verbatim>\<open>'o'\<close> on
  stdout and \<^verbatim>\<open>'e'\<close> on stderr, at INFO, the reporter emits three error-level events.
\<close>

theorem reporter_emits_three_error_events:
  "snd (display_proc_result [ascii ''false''] False failed_loudly 20)
     = [LogCall ERROR (Str (ascii ''`false` returned: 1'')) [],
        LogCall ERROR (Str (ascii ''o'')) [],
        LogCall ERROR (Str (ascii ''e'')) []]
   \<and> length (filter (\<lambda>ev. lvl ev = ERROR)
         (snd (display_proc_result [ascii ''false''] False failed_loudly 20))) = 3"
proof -
  have rc: "retcode failed_loudly = 1"
    by (simp add: failed_loudly_def)
  have out: "stdout_prop failed_loudly = Inr (Str (ascii ''o''))"
    by (simp add: stdout_prop_def failed_loudly_def decode_def ascii_def)
  have err: "stderr_prop failed_loudly = Inr (Str (ascii ''e''))"
    by (simp add: stderr_prop_def failed_loudly_def decode_def ascii_def)
  have "display_proc_result [ascii ''false''] False failed_loudly 20
      = (Inr (), [LogCall ERROR (Str (ascii ''`false` returned: 1'')) [],
                  LogCall ERROR (Str (ascii ''o'')) [],
                  LogCall ERROR (Str (ascii ''e'')) []])"
    by (subst display_coarse_level) (simp_all add: out err rc DEBUG_def false_message)
  then show ?thesis
    by simp
qed

text \<open>
  Claim C8, amended: the result reporter emits no log event when \<^verbatim>\<open>ignore_retcode\<close> is
  set or the exit code is 0. Otherwise its first event is an error-level event naming
  the shell-quoted command and the exit code; at most two more error-level events follow
  it, each carrying a non-empty aggregated output buffer as its message, and none
  follows at debug level or finer.
\<close>

theorem reporter_error_events:
  "(ignore_retcode \<or> retcode proc_data = 0 \<longrightarrow>
      display_proc_result args ignore_retcode proc_data level = (Inr (), []))
   \<and> (\<not> ignore_retcode \<and> retcode proc_data \<noteq> 0 \<longrightarrow>
        (\<exists>rest.
           snd (display_proc_result args ignore_retcode proc_data level)
             = LogCall ERROR
                 (Str (ascii ''`'' @ shlex_join args @ ascii ''` returned: ''
                       @ repr_int (retcode proc_data))) [] # rest
           \<and> length rest \<le> 2
           \<and> (\<forall>ev \<in> set rest.
                 lvl ev = ERROR \<and> fmt_args ev = [] \<and> truthy_val (msg ev)
                 \<and> (stdout_prop proc_data = Inr (msg ev) \<or> stderr_prop proc_data = Inr (msg ev)))
           \<and> (level \<le> DEBUG \<longrightarrow> rest = [])))"
proof (intro conjI impI)
  assume "ignore_retcode \<or> retcode proc_data = 0"
  then show "display_proc_result args ignore_retcode proc_data level = (Inr (), [])"
    by (rule display_quiet)
next
  assume fail: "\<not> ignore_retcode \<and> retcode proc_data \<noteq> 0"
  show "\<exists>rest.
           snd (display_proc_result args ignore_retcode proc_data level)
             = LogCall ERROR
                 (Str (ascii ''`'' @ shlex_join args @ ascii ''` returned: ''
                       @ repr_int (retcode proc_data))) [] # rest
           \<and> length rest \<le> 2
           \<and> (\<forall>ev \<in> set rest.
                 lvl ev = ERROR \<and> fmt_args ev = [] \<and> truthy_val (msg ev)
                 \<and> (stdout_prop proc_data = Inr (msg ev) \<or> stderr_prop proc_data = Inr (msg ev)))
           \<and> (level \<le> DEBUG \<longrightarrow> rest = [])"
  proof (cases "level \<le> DEBUG")
    case True
    with fail show ?thesis
      by (simp add: display_debug_level returned_message_def)
  next
    case False
    with fail have coarse: "\<not> ignore_retcode" "retcode proc_data \<noteq> 0" "level > DEBUG"
      by auto
    show ?thesis
      unfolding display_coarse_level [OF coarse]
      by (cases "stdout_prop proc_data"; cases "stderr_prop proc_data")
         (use False in \<open>auto simp: returned_message_def\<close>)
  qed
qed

text \<open>
  The amended claim C8 for the command \<^verbatim>\<open>false\<close> that exited with status 1: reported when
  \<^verbatim>\<open>ignore_retcode\<close> is off, silent when it is on.
\<close>

theorem reporter_error_events_witness:
  "\<not> False \<and> retcode failed_quietly \<noteq> 0
   \<and> (\<exists>rest. snd (display_proc_result [ascii ''false''] False failed_quietly 20)
               = LogCall ERROR (Str (ascii ''`false` returned: 1'')) [] # rest
             \<and> length rest \<le> 2)
   \<and> display_proc_result [ascii ''false''] True failed_quietly 20 = (Inr (), [])"
proof -
  have rc: "retcode failed_quietly = 1"
    by (simp add: failed_quietly_def)
  have msg: "ascii ''`'' @ shlex_join [ascii ''false''] @ ascii ''` returned: '' @ repr_int 1
      = ascii ''`false` returned: 1''"
    using false_message by (simp add: returned_message_def)
  from reporter_error_events [of False failed_quietly "[ascii ''false'']" 20]
  have "\<exists>rest. snd (display_proc_result [ascii ''false''] False failed_quietly 20)
               = LogCall ERROR (Str (ascii ''`false` returned: 1'')) [] # rest
             \<and> length rest \<le> 2"
    unfolding rc msg by auto
  moreover from reporter_error_events [of True failed_quietly "[ascii ''false'']" 20]
  have "display_proc_result [ascii ''false''] True failed_quietly 20 = (Inr (), [])"
    by simp
  ultimately show ?thesis
    using rc by simp
qed

text \<open>
  Claim C9, as stated: on a reported failure at a verbosity coarser than debug the
  reporter logs the aggregated stdout, and the aggregated stderr if it is non-empty. It
  fails for an empty stdout: the code guards both buffers with a truth test, so an empty
  stdout is not logged. With an empty stdout and \<^verbatim>\<open>'e'\<close> on stderr the reporter makes two
  calls, and none carries the stdout buffer.
\<close>

theorem reporter_skips_empty_stdout:
  "stdout_prop failed_quietly = Inr (Str [])
   \<and> snd (display_proc_result [ascii ''false''] False failed_quietly 20)
       = [LogCall ERROR (Str (ascii ''`false` returned: 1'')) [],
          LogCall ERROR (Str (ascii ''e'')) []]
   \<and> LogCall ERROR (Str []) [] \<notin> set (snd (display_proc_result [ascii ''false''] False failed_quietly 20))"
proof -
  have rc: "retcode failed_quietly = 1"
    by (simp add: failed_quietly_def)
  have out: "stdout_prop failed_quietly = Inr (Str [])"
    by (simp add: stdout_prop_def failed_quietly_def decode_def)
  have err: "stderr_prop failed_quietly = Inr (Str (ascii ''e''))"
    by (simp add: stderr_prop_def failed_quietly_def decode_def ascii_def)
  have "display_proc_result [ascii ''false''] False failed_quietly 20
      = (Inr (), [LogCall ERROR (Str (ascii ''`false` returned: 1'')) [],
          LogCall ERROR (Str (ascii ''e'')) []])"
    by (subst display_coarse_level)
       (simp_all add: out err rc DEBUG_def false_message)
  with out show ?thesis
    by (simp add: ascii_def)
qed

text \<open>
  Claim C9, amended: when the result reporter reports a non-zero exit and the buffers
  can be read (they decode, or \<^verbatim>\<open>decode_output\<close> is off), then at a verbosity coarser than
  debug it logs the aggregated stdout if it is non-empty and the aggregated stderr if it
  is non-empty, one error-level event each, in this order; at debug level or finer it
  logs neither.
\<close>

theorem reporter_aggregated_output:
  assumes "\<not> ignore_retcode" and "retcode proc_data \<noteq> 0"
    and "stdout_prop proc_data = Inr out" and "stderr_prop proc_data = Inr err"
  shows "display_proc_result args ignore_retcode proc_data level =
     (Inr (),
      LogCall ERROR (Str (returned_message args (retcode proc_data))) []
      # (if level > DEBUG
         then (if truthy_val out then [LogCall ERROR out []] else [])
              @ (if truthy_val err then [LogCall ERROR err []] else [])
         else []))"
proof (cases "level > DEBUG")
  case True
  with assms show ?thesis
    by (simp add: display_coarse_level)
next
  case False
  with assms show ?thesis
    by (simp add: display_debug_level)
qed

text \<open>
  The amended claim C9 for the command \<^verbatim>\<open>false\<close> with \<^verbatim>\<open>'e'\<close> on stderr, at INFO and at
  DEBUG.
\<close>

theorem reporter_aggregated_output_witness:
  "\<not> False \<and> retcode failed_quietly \<noteq> 0
   \<and> stdout_prop failed_quietly = Inr (Str [])
   \<and> stderr_prop failed_quietly = Inr (Str (ascii ''e''))
   \<and> display_proc_result [ascii ''false''] False failed_quietly 20
       = (Inr (), [LogCall ERROR (Str (returned_message [ascii ''false''] 1)) [],
                   LogCall ERROR (Str (ascii ''e'')) []])
   \<and> display_proc_result [ascii ''false''] False failed_quietly 10
       = (Inr (), [LogCall ERROR (Str (returned_message [ascii ''false''] 1)) []])"
proof -
  have rc: "retcode failed_quietly = 1" "retcode failed_quietly \<noteq> 0"
    by (simp_all add: failed_quietly_def)
  have out: "stdout_prop failed_quietly = Inr (Str [])"
    by (simp add: stdout_prop_def failed_quietly_def decode_def)
  have err: "stderr_prop failed_quietly = Inr (Str (ascii ''e''))"
    by (simp add: stderr_prop_def failed_quietly_def decode_def ascii_def)
  show ?thesis
    using reporter_aggregated_output [OF _ rc(2) out err, of False "[ascii ''false'']" 20]
      reporter_aggregated_output [OF _ rc(2) out err, of False "[ascii ''false'']" 10]
      rc out err
    by (simp add: DEBUG_def ascii_def)
qed

section \<open>The blocking launcher\<close>

lemma exec_cmd_retcode:
  assumes "exec_cmd args input stdout stderr ign dec w = (Inr proc_data, log)"
  shows "retcode proc_data = exit_status w"
proof -
  have ok: "spawn_ok w" "input \<noteq> None \<longrightarrow> write_ok w"
    using assms exec_cmd_spawn_failure [of w args input stdout stderr ign dec]
      exec_cmd_write_failure [of w input args stdout stderr ign dec]
    by auto
  obtain r1 l1 where d1: "(if truthy stdout
              then iterate_proc_output
                     (if stdout = Some PIPE then Some (stdout_pipe w) else None)
                     (if stderr = Some STDOUT then PSC_OUTPUT else PSC_STDOUT)
              else ret []) = (r1, l1)"
    by (rule prod.exhaust)
  obtain r2 l2 where d2: "(if truthy stderr \<and> stderr \<noteq> Some STDOUT
              then iterate_proc_output
                     (if stderr = Some PIPE then Some (stderr_pipe w) else None) PSC_STDERR
              else ret []) = (r2, l2)"
    by (rule prod.exhaust)
  from assms show ?thesis
    unfolding exec_cmd_running [OF ok d1 d2]
    by (auto split: sum.splits)
qed

lemma exec_cmd_returns:
  assumes ok: "spawn_ok w" "input \<noteq> None \<longrightarrow> write_ok w"
    and out: "truthy stdout \<longrightarrow> stdout = Some PIPE \<and> decodable (stdout_pipe w)"
    and err: "truthy stderr \<and> stderr \<noteq> Some STDOUT
              \<longrightarrow> stderr = Some PIPE \<and> decodable (stderr_pipe w)"
  shows "fst (exec_cmd args input stdout stderr ign dec w)
     = Inr \<lparr>decode_output = dec,
            priv_stdout = (if truthy stdout then stdout_pipe w else []),
            priv_stderr = (if truthy stderr \<and> stderr \<noteq> Some STDOUT then stderr_pipe w else []),
            retcode = exit_status w\<rparr>"
proof -
  let ?o = "if truthy stdout then stdout_pipe w else []"
  let ?e = "if truthy stderr \<and> stderr \<noteq> Some STDOUT then stderr_pipe w else []"
  let ?pd = "\<lparr>decode_output = dec, priv_stdout = ?o, priv_stderr = ?e, retcode = exit_status w\<rparr>"
  obtain l1 where d1: "(if truthy stdout
              then iterate_proc_output
                     (if stdout = Some PIPE then Some (stdout_pipe w) else None)
                     (if stderr = Some STDOUT then PSC_OUTPUT else PSC_STDOUT)
              else ret []) = (Inr ?o, l1)"
  proof (cases "truthy stdout")
    case True
    with out drain_of_decodable [of "stdout_pipe w" "if stderr = Some STDOUT then PSC_OUTPUT else PSC_STDOUT"]
    have "fst (iterate_proc_output (Some (stdout_pipe w))
            (if stderr = Some STDOUT then PSC_OUTPUT else PSC_STDOUT)) = Inr (stdout_pipe w)"
      by simp
    then obtain l where "iterate_proc_output (Some (stdout_pipe w))
            (if stderr = Some STDOUT then PSC_OUTPUT else PSC_STDOUT) = (Inr (stdout_pipe w), l)"
      by (cases "iterate_proc_output (Some (stdout_pipe w))
            (if stderr = Some STDOUT then PSC_OUTPUT else PSC_STDOUT)") auto
    with True out that [of l] show ?thesis
      by simp
  next
    case False
    with that show ?thesis by (simp add: ret_def)
  qed
  obtain l2 where d2: "(if truthy stderr \<and> stderr \<noteq> Some STDOUT
              then iterate_proc_output
                     (if stderr = Some PIPE then Some (stderr_pipe w) else None) PSC_STDERR
              else ret []) = (Inr ?e, l2)"
  proof (cases "truthy stderr \<and> stderr \<noteq> Some STDOUT")
    case True
    with err drain_of_decodable [of "stderr_pipe w" PSC_STDERR]
    have "fst (iterate_proc_output (Some (stderr_pipe w)) PSC_STDERR) = Inr (stderr_pipe w)"
      by simp
    then obtain l where "iterate_proc_output (Some (stderr_pipe w)) PSC_STDERR
        = (Inr (stderr_pipe w), l)"
      by (cases "iterate_proc_output (Some (stderr_pipe w)) PSC_STDERR") auto
    with True err that [of l] show ?thesis
      by simp
  next
    case False
    with that show ?thesis by (simp add: ret_def)
  qed
  have "decodable ?o" and "decodable ?e"
    using out err by (auto simp: decodable_def lines_of.simps [of "[]"])
  then obtain to te where "decode ?o = Inr to" and "decode ?e = Inr te"
    using decodable_whole by blast
  then have "\<exists>a. stdout_prop ?pd = Inr a" and "\<exists>a. stderr_prop ?pd = Inr a"
    by (auto simp: stdout_prop_def stderr_prop_def)
  then have "fst (display_proc_result args ign ?pd (effective_level w)) = Inr ()"
    using display_returns by blast
  then show ?thesis
    unfolding exec_cmd_running [OF ok d1 d2] by simp
qed

lemma exec_cmd_raises_only:
  assumes "fst (exec_cmd args input stdout stderr ign dec w) = Inl e"
  shows "e = SpawnFailure \<and> \<not> spawn_ok w
         \<or> e = InputWriteFailure \<and> input \<noteq> None \<and> \<not> write_ok w
         \<or> e = TypeError \<and> (truthy stdout \<and> stdout \<noteq> Some PIPE
                              \<or> truthy stderr \<and> stderr \<noteq> Some STDOUT \<and> stderr \<noteq> Some PIPE)
         \<or> e = UnicodeDecodeError"
proof (cases "spawn_ok w \<and> (input \<noteq> None \<longrightarrow> write_ok w)")
  case False
  then show ?thesis
    using assms exec_cmd_spawn_failure [of w args input stdout stderr ign dec]
      exec_cmd_write_failure [of w input args stdout stderr ign dec]
    by (cases "spawn_ok w") auto
next
  case True
  then have ok: "spawn_ok w" "input \<noteq> None \<longrightarrow> write_ok w" by auto
  obtain r1 l1 where d1: "(if truthy stdout
              then iterate_proc_output
                     (if stdout = Some PIPE then Some (stdout_pipe w) else None)
                     (if stderr = Some STDOUT then PSC_OUTPUT else PSC_STDOUT)
              else ret []) = (r1, l1)"
    by (rule prod.exhaust)
  obtain r2 l2 where d2: "(if truthy stderr \<and> stderr \<noteq> Some STDOUT
              then iterate_proc_output
                     (if stderr = Some PIPE then Some (stderr_pipe w) else None) PSC_STDERR
              else ret []) = (r2, l2)"
    by (rule prod.exhaust)
  have drain: "(s = None \<and> e' = TypeError) \<or> e' = UnicodeDecodeError"
    if "iterate_proc_output s c = (Inl e', l)" for s c e' l
  proof (cases s)
    case None
    with that show ?thesis by simp
  next
    case (Some b)
    with that have "fst (iterate_proc_output (Some b) c) = Inl e'" by simp
    then show ?thesis by (simp add: drain_raises_iff)
  qed
  have r1: "r1 = Inl e' \<Longrightarrow>
      e' = TypeError \<and> truthy stdout \<and> stdout \<noteq> Some PIPE \<or> e' = UnicodeDecodeError" for e'
    using d1 drain [of "if stdout = Some PIPE then Some (stdout_pipe w) else None"
        "if stderr = Some STDOUT then PSC_OUTPUT else PSC_STDOUT" e' l1]
    by (cases "truthy stdout") (auto simp: ret_def split: if_splits)
  have r2: "r2 = Inl e' \<Longrightarrow>
      e' = TypeError \<and> truthy stderr \<and> stderr \<noteq> Some STDOUT \<and> stderr \<noteq> Some PIPE
      \<or> e' = UnicodeDecodeError" for e'
    using d2 drain [of "if stderr = Some PIPE then Some (stderr_pipe w) else None"
        PSC_STDERR e' l2]
    by (cases "truthy stderr \<and> stderr \<noteq> Some STDOUT") (auto simp: ret_def split: if_splits)
  from assms show ?thesis
    unfolding exec_cmd_running [OF ok d1 d2]
    using r1 r2 display_raises
    by (auto split: sum.splits)
qed

lemma drain_merged:
  "iterate_proc_output (Some (stdout_pipe run_merged)) PSC_OUTPUT
     = (Inr (stdout_pipe run_merged),
        [LogCall DEBUG (Str line_format)
           [Fore_LIGHTBLACK_EX @ Style_BRIGHT, ascii ''OUTPUT'', Style_RESET_ALL,
            Fore_LIGHTBLACK_EX, ascii ''o'', Style_RESET_ALL],
         LogCall DEBUG (Str line_format)
           [Fore_LIGHTBLACK_EX @ Style_BRIGHT, ascii ''OUTPUT'', Style_RESET_ALL,
            Fore_LIGHTBLACK_EX, ascii ''e'', Style_RESET_ALL]])"
  by (simp add: iterate_proc_output_def run_merged_def for_raw_line.simps [of _ "_ # _"]
        for_raw_line.simps [of _ "[]"] readline_def decode_def fmt_proc_output_def ret_def
        strip_def lstrip_def rstrip_def isspace_def ascii_def)

lemma exec_cmd_merged:
  "exec_cmd [ascii ''sh''] None (Some PIPE) (Some STDOUT) False True run_merged
     = (Inr \<lparr>decode_output = True, priv_stdout = stdout_pipe run_merged, priv_stderr = [],
             retcode = 7\<rparr>,
        [cmd_event [ascii ''sh''],
         LogCall DEBUG (Str line_format)
           [Fore_LIGHTBLACK_EX @ Style_BRIGHT, ascii ''OUTPUT'', Style_RESET_ALL,
            Fore_LIGHTBLACK_EX, ascii ''o'', Style_RESET_ALL],
         LogCall DEBUG (Str line_format)
           [Fore_LIGHTBLACK_EX @ Style_BRIGHT, ascii ''OUTPUT'', Style_RESET_ALL,
            Fore_LIGHTBLACK_EX, ascii ''e'', Style_RESET_ALL],
         LogCall ERROR (Str (ascii ''`sh` returned: 7'')) [],
         LogCall ERROR (Str (ascii ''o'' @ [0x0A] @ ascii ''e'')) []])"
proof -
  have ok: "spawn_ok run_merged" "None \<noteq> None \<longrightarrow> write_ok run_merged"
    by (simp_all add: run_merged_def)
  have d1: "(if truthy (Some PIPE)
              then iterate_proc_output
                     (if Some PIPE = Some PIPE then Some (stdout_pipe run_merged) else None)
                     (if Some STDOUT = Some STDOUT then PSC_OUTPUT else PSC_STDOUT)
              else ret []) = (Inr (stdout_pipe run_merged),
        [LogCall DEBUG (Str line_format)
           [Fore_LIGHTBLACK_EX @ Style_BRIGHT, ascii ''OUTPUT'', Style_RESET_ALL,
            Fore_LIGHTBLACK_EX, ascii ''o'', Style_RESET_ALL],
         LogCall DEBUG (Str line_format)
           [Fore_LIGHTBLACK_EX @ Style_BRIGHT, ascii ''OUTPUT'', Style_RESET_ALL,
            Fore_LIGHTBLACK_EX, ascii ''e'', Style_RESET_ALL]])"
    by (simp add: truthy_def PIPE_def drain_merged)
  have d2: "(if truthy (Some STDOUT) \<and> Some STDOUT \<noteq> Some STDOUT
              then iterate_proc_output
                     (if Some STDOUT = Some PIPE then Some (stderr_pipe run_merged) else None)
                     PSC_STDERR
              else ret []) = (Inr [], [])"
    by (simp add: ret_def)
  have level: "effective_level run_merged = 20" and status: "exit_status run_merged = 7"
    by (simp_all add: run_merged_def)
  have disp: "display_proc_result [ascii ''sh''] False
       \<lparr>decode_output = True, priv_stdout = stdout_pipe run_merged, priv_stderr = [],
        retcode = 7\<rparr> 20
     = (Inr (), [LogCall ERROR (Str (ascii ''`sh` returned: 7'')) [],
                 LogCall ERROR (Str (ascii ''o'' @ [0x0A] @ ascii ''e'')) []])"
  proof -
    have out: "stdout_prop \<lparr>decode_output = True, priv_stdout = stdout_pipe run_merged,
        priv_stderr = [], retcode = 7\<rparr> = Inr (Str (ascii ''o'' @ [0x0A] @ ascii ''e''))"
      by (simp add: stdout_prop_def decode_def run_merged_def ascii_def)
    have err: "stderr_prop \<lparr>decode_output = True, priv_stdout = stdout_pipe run_merged,
        priv_stderr = [], retcode = 7\<rparr> = Inr (Str [])"
      by (simp add: stderr_prop_def decode_def)
    show ?thesis
      by (subst display_coarse_level) (simp_all add: DEBUG_def sh_message out err)
  qed
  show ?thesis
    unfolding exec_cmd_running [OF ok d1 d2] level status
    by (simp add: disp)
qed

text \<open>
  Claim C3: when the caller asks for stderr to be merged into stdout, the returned
  \<^verbatim>\<open>ProcData\<close> has an empty stderr buffer, and every drained line is logged with the
  classifier \<^verbatim>\<open>OUTPUT\<close>. The first call of the log is the command line; among the later
  ones the debug calls are exactly the line events of the lines of the stdout pipe, in
  order, and each has the name \<^verbatim>\<open>OUTPUT\<close> as second argument, also in a run that raises.
\<close>

theorem merged_stderr:
  assumes merge: "stderr = Some STDOUT"
    and run: "exec_cmd args input stdout stderr ignore_retcode dec w = (r, log)"
  shows "(\<forall>proc_data. r = Inr proc_data \<longrightarrow>
            priv_stderr proc_data = []
            \<and> (truthy stdout \<longrightarrow>
                 priv_stdout proc_data = stdout_pipe w
                 \<and> list_all2 (line_event PSC_OUTPUT) (lines_of (stdout_pipe w))
                      (filter (\<lambda>ev. lvl ev = DEBUG) (tl log))))
         \<and> (\<forall>ev \<in> set (tl log). lvl ev = DEBUG \<longrightarrow> fmt_args ev ! 1 = name PSC_OUTPUT)"
proof (cases "spawn_ok w \<and> (input \<noteq> None \<longrightarrow> write_ok w)")
  case False
  then have "r \<noteq> Inr pd" and "tl log = []" for pd
    using run exec_cmd_spawn_failure [of w args input stdout stderr ignore_retcode dec]
      exec_cmd_write_failure [of w input args stdout stderr ignore_retcode dec]
    by (cases "spawn_ok w"; auto)+
  then show ?thesis by simp
next
  case True
  then have ok: "spawn_ok w" "input \<noteq> None \<longrightarrow> write_ok w" by auto
  obtain r1 l1 where d1: "(if truthy stdout
              then iterate_proc_output
                     (if stdout = Some PIPE then Some (stdout_pipe w) else None)
                     (if stderr = Some STDOUT then PSC_OUTPUT else PSC_STDOUT)
              else ret []) = (r1, l1)"
    by (rule prod.exhaust)
  have d2: "(if truthy stderr \<and> stderr \<noteq> Some STDOUT
              then iterate_proc_output
                     (if stderr = Some PIPE then Some (stderr_pipe w) else None) PSC_STDERR
              else ret []) = (Inr [], [])"
    using merge by (simp add: ret_def)
  note flat = exec_cmd_running [OF ok d1 d2, of args ignore_retcode dec]
  have l1: "\<forall>ev \<in> set l1. lvl ev = DEBUG \<and> fmt_args ev ! 1 = name PSC_OUTPUT"
    using d1 merge drain_events [of _ "if stdout = Some PIPE then Some (stdout_pipe w) else None" PSC_OUTPUT]
    by (cases "truthy stdout") (auto simp: ret_def)
  show ?thesis
  proof (cases r1)
    case (Inl e)
    with run flat have "r = Inl e" and "tl log = l1" by auto
    with l1 show ?thesis by simp
  next
    case (Inr out)
    let ?pd = "\<lparr>decode_output = dec, priv_stdout = out, priv_stderr = [],
                retcode = exit_status w\<rparr>"
    let ?l3 = "snd (display_proc_result args ignore_retcode ?pd (effective_level w))"
    from run flat Inr have r: "\<forall>pd. r = Inr pd \<longrightarrow> pd = ?pd" and lg: "tl log = l1 @ ?l3"
      by (auto split: sum.splits)
    have l3: "\<forall>ev \<in> set ?l3. lvl ev \<noteq> DEBUG"
      using display_events DEBUG_neq_ERROR by metis
    from l1 l3 have filt: "filter (\<lambda>ev. lvl ev = DEBUG) (tl log) = l1"
      unfolding lg by (simp add: filter_empty_conv)
    have lines: "truthy stdout \<longrightarrow> out = stdout_pipe w
        \<and> list_all2 (line_event PSC_OUTPUT) (lines_of (stdout_pipe w)) l1"
      using d1 Inr merge
        drain_Inr [of "if stdout = Some PIPE then Some (stdout_pipe w) else None" PSC_OUTPUT out l1]
      by (auto split: if_splits)
    show ?thesis
      using r lines filt l1 l3 lg by auto
  qed
qed

text \<open>
  Claim C3 for a child that writes \<^verbatim>\<open>o\<close> to stdout and \<^verbatim>\<open>e\<close> to stderr and exits with
  status 7: two line events, both under \<^verbatim>\<open>OUTPUT\<close>, and two error events of the reporter.
\<close>

theorem merged_stderr_witness:
  "fst (exec_cmd [ascii ''sh''] None (Some PIPE) (Some STDOUT) False True run_merged)
     = Inr \<lparr>decode_output = True, priv_stdout = stdout_pipe run_merged, priv_stderr = [],
            retcode = 7\<rparr>
   \<and> length (snd (exec_cmd [ascii ''sh''] None (Some PIPE) (Some STDOUT) False True run_merged)) = 5
   \<and> list_all2 (line_event PSC_OUTPUT) (lines_of (stdout_pipe run_merged))
        (filter (\<lambda>ev. lvl ev = DEBUG)
           (tl (snd (exec_cmd [ascii ''sh''] None (Some PIPE) (Some STDOUT) False True
                       run_merged))))
   \<and> length (filter (\<lambda>ev. lvl ev = DEBUG)
        (tl (snd (exec_cmd [ascii ''sh''] None (Some PIPE) (Some STDOUT) False True
                    run_merged)))) = 2"
  using merged_stderr [OF refl exec_cmd_merged] exec_cmd_merged
  by (simp add: truthy_def PIPE_def DEBUG_def ERROR_def)

text \<open>
  Claim C10, as stated: every call of \<^verbatim>\<open>exec_cmd\<close> with \<^verbatim>\<open>DEVNULL\<close> as stdout or stderr
  argument raises \<^verbatim>\<open>TypeError\<close>. It fails for the calls that end before the drain of the
  discarded stream: when the process cannot be created, when the input cannot be
  written, and when stdout is captured, stderr discarded and the stdout drain raises on
  a line that is not UTF-8.
\<close>

theorem discard_raises_other_errors:
  "fst (exec_cmd [ascii ''true''] None (Some DEVNULL) None False True run_enoent)
     = Inl SpawnFailure
   \<and> fst (exec_cmd [ascii ''true''] (Some ''x'') (Some DEVNULL) None False True run_closed_stdin)
     = Inl InputWriteFailure
   \<and> fst (exec_cmd [ascii ''true''] None (Some PIPE) (Some DEVNULL) False True run_binary)
     = Inl UnicodeDecodeError"
proof -
  have "fst (exec_cmd [ascii ''true''] None (Some DEVNULL) None False True run_enoent)
     = Inl SpawnFailure"
    by (subst exec_cmd_spawn_failure) (simp_all add: run_enoent_def)
  moreover have "fst (exec_cmd [ascii ''true''] (Some ''x'') (Some DEVNULL) None False True
       run_closed_stdin) = Inl InputWriteFailure"
    by (subst exec_cmd_write_failure) (simp_all add: run_closed_stdin_def)
  moreover have "fst (exec_cmd [ascii ''true''] None (Some PIPE) (Some DEVNULL) False True
       run_binary) = Inl UnicodeDecodeError"
  proof -
    have ok: "spawn_ok run_binary" "None \<noteq> None \<longrightarrow> write_ok run_binary"
      by (simp_all add: run_binary_def)
    have d1: "(if truthy (Some PIPE)
               then iterate_proc_output
                      (if Some PIPE = Some PIPE then Some (stdout_pipe run_binary) else None)
                      (if Some DEVNULL = Some STDOUT then PSC_OUTPUT else PSC_STDOUT)
               else ret []) = (Inl UnicodeDecodeError, [])"
      by (simp add: truthy_def PIPE_def DEVNULL_def STDOUT_def run_binary_def
            iterate_proc_output_def for_raw_line.simps [of _ "[CHR 0xFF, CHR 0x0A]"]
            readline_def decode_def raise_def)
    obtain r2 l2 where d2: "(if truthy (Some DEVNULL) \<and> Some DEVNULL \<noteq> Some STDOUT
               then iterate_proc_output
                      (if Some DEVNULL = Some PIPE then Some (stderr_pipe run_binary) else None)
                      PSC_STDERR
               else ret []) = (r2, l2)"
      by (rule prod.exhaust)
    show ?thesis
      unfolding exec_cmd_running [OF ok d1 d2] by simp
  qed
  ultimately show ?thesis
    by simp
qed

text \<open>
  Claim C10, amended: with \<^verbatim>\<open>DEVNULL\<close> as stdout or stderr argument, no call of
  \<^verbatim>\<open>exec_cmd\<close> returns a \<^verbatim>\<open>ProcData\<close>. The call enters the drain branch of the discarded
  stream (the argument is truthy) and iterates over \<^verbatim>\<open>None\<close>, so it raises \<^verbatim>\<open>TypeError\<close>,
  whenever it gets as far as that drain: the process was created, the input (if any) was
  written and, for a discarded stderr behind a captured stdout, every line of stdout
  decoded.
\<close>

theorem discard_raises_TypeError:
  assumes discard: "stdout = Some DEVNULL \<or> stderr = Some DEVNULL"
  shows "(\<exists>e. fst (exec_cmd args input stdout stderr ign dec w) = Inl e)
         \<and> (spawn_ok w \<and> (input \<noteq> None \<longrightarrow> write_ok w)
              \<and> (stdout = Some PIPE \<longrightarrow> decodable (stdout_pipe w))
            \<longrightarrow> fst (exec_cmd args input stdout stderr ign dec w) = Inl TypeError)"
proof (cases "spawn_ok w \<and> (input \<noteq> None \<longrightarrow> write_ok w)")
  case False
  then show ?thesis
    using exec_cmd_spawn_failure [of w args input stdout stderr ign dec]
      exec_cmd_write_failure [of w input args stdout stderr ign dec]
    by (cases "spawn_ok w") auto
next
  case True
  then have ok: "spawn_ok w" "input \<noteq> None \<longrightarrow> write_ok w" by auto
  obtain r1 l1 where d1: "(if truthy stdout
              then iterate_proc_output
                     (if stdout = Some PIPE then Some (stdout_pipe w) else None)
                     (if stderr = Some STDOUT then PSC_OUTPUT else PSC_STDOUT)
              else ret []) = (r1, l1)"
    by (rule prod.exhaust)
  obtain r2 l2 where d2: "(if truthy stderr \<and> stderr \<noteq> Some STDOUT
              then iterate_proc_output
                     (if stderr = Some PIPE then Some (stderr_pipe w) else None) PSC_STDERR
              else ret []) = (r2, l2)"
    by (rule prod.exhaust)
  note run = exec_cmd_running [OF ok d1 d2, of args ign dec]
  show ?thesis
  proof (cases "stdout = Some DEVNULL")
    case True
    with d1 have "r1 = Inl TypeError"
      by (simp add: truthy_def DEVNULL_def PIPE_def)
    then show ?thesis
      unfolding run by simp
  next
    case False
    with discard have err: "stderr = Some DEVNULL" by simp
    with d2 have r2: "r2 = Inl TypeError"
      by (simp add: truthy_def DEVNULL_def PIPE_def STDOUT_def)
    show ?thesis
    proof (cases r1)
      case (Inl e)
      have "stdout = Some PIPE \<longrightarrow> \<not> decodable (stdout_pipe w)"
        using d1 Inl drain_raises_iff [of "stdout_pipe w" PSC_STDOUT e]
        by (auto simp: err DEVNULL_def STDOUT_def truthy_def PIPE_def ret_def split: if_splits)
      moreover have "stdout \<noteq> Some PIPE \<longrightarrow> e = TypeError"
        using d1 Inl by (auto simp: ret_def split: if_splits)
      ultimately show ?thesis
        unfolding run using Inl by auto
    next
      case (Inr out)
      with r2 show ?thesis
        unfolding run by simp
    qed
  qed
qed

text \<open>
  The amended claim C10 for the command \<^verbatim>\<open>true\<close>, once with stdout discarded and once with stderr
  discarded.
\<close>

theorem discard_raises_TypeError_witness:
  "spawn_ok run_true
   \<and> fst (exec_cmd [ascii ''true''] None (Some DEVNULL) None False True run_true) = Inl TypeError
   \<and> fst (exec_cmd [ascii ''true''] None None (Some DEVNULL) False True run_true) = Inl TypeError"
proof -
  have ok: "spawn_ok run_true"
    by (simp add: run_true_def)
  from discard_raises_TypeError [of "Some DEVNULL" None "[ascii ''true'']" None False True run_true]
    discard_raises_TypeError [of None "Some DEVNULL" "[ascii ''true'']" None False True run_true]
    ok
  show ?thesis
    by (simp add: PIPE_def DEVNULL_def)
qed

text \<open>
  Claim C2: \<^verbatim>\<open>exec_cmd\<close> raises only when the process cannot be created or the input
  cannot be written, and records the exit status unchanged. The second half holds
  (\<open>exec_cmd_retcode\<close>, \<open>exec_cmd_returns\<close>). The first half fails for the spec's own
  scenario, \<^verbatim>\<open>printf 'a\nb\nc'\<close> with stdout captured and stderr discarded: the process is
  created, there is no input, and the call raises \<^verbatim>\<open>TypeError\<close> after draining stdout.
\<close>

theorem exec_cmd_raises_with_stderr_discarded:
  "spawn_ok run_printf \<and>
   fst (exec_cmd [ascii ''printf'', ascii ''a'' @ [0x0A] @ ascii ''b'' @ [0x0A] @ ascii ''c'']
          None (Some PIPE) (Some DEVNULL) False True run_printf) = Inl TypeError"
proof -
  obtain l1 where d1: "iterate_proc_output (Some (stdout_pipe run_printf)) PSC_STDOUT
      = (Inr (stdout_pipe run_printf), l1)"
  proof -
    have "decodable (stdout_pipe run_printf)"
      by (simp add: decodable_def run_printf_def lines_of.simps [of "_ # _"] lines_of.simps [of "[]"] readline_def)
    from drain_of_decodable [OF this, of PSC_STDOUT] that show ?thesis
      by (cases "iterate_proc_output (Some (stdout_pipe run_printf)) PSC_STDOUT") auto
  qed
  have "spawn_ok run_printf" by (simp add: run_printf_def)
  then show ?thesis
    by (subst exec_cmd_running [where ?r1.0 = "Inr (stdout_pipe run_printf)" and ?l1.0 = l1
            and ?r2.0 = "Inl TypeError" and ?l2.0 = "[]"])
       (simp_all add: truthy_def PIPE_def STDOUT_def DEVNULL_def d1)
qed

section \<open>The cooperative launcher\<close>

lemma exec_cmd_async_never_returns:
  "\<exists>e. fst (exec_cmd_async args input stdout stderr ign dec w) = Inl e"
  by (cases args; cases input)
     (simp_all add: exec_cmd_async_def create_subprocess_exec_def coroutine_getattr_def raise_def)

text \<open>
  Claim C5: \<^verbatim>\<open>exec_cmd_async\<close> returns a \<^verbatim>\<open>ProcData\<close> with the same buffers and exit code
  as \<^verbatim>\<open>exec_cmd\<close>. It never returns one: the subprocess coroutine is not awaited, and the
  first attribute read on it raises \<^verbatim>\<open>AttributeError\<close>. For the command \<^verbatim>\<open>true\<close> with both
  streams captured, \<^verbatim>\<open>exec_cmd\<close> returns empty buffers and exit code 0.
\<close>

theorem exec_cmd_async_raises_where_exec_cmd_returns:
  "exec_cmd [ascii ''true''] None (Some PIPE) (Some PIPE) False True run_true
     = (Inr \<lparr>decode_output = True, priv_stdout = [], priv_stderr = [], retcode = 0\<rparr>,
        [cmd_event [ascii ''true'']])
   \<and> exec_cmd_async [ascii ''true''] None (Some PIPE) (Some PIPE) False True run_true
     = (Inl AttributeError, [cmd_event [ascii ''true'']])"
proof -
  have "exec_cmd [ascii ''true''] None (Some PIPE) (Some PIPE) False True run_true
     = (Inr \<lparr>decode_output = True, priv_stdout = [], priv_stderr = [], retcode = 0\<rparr>,
        [cmd_event [ascii ''true'']])"
    by (subst exec_cmd_running [where ?r1.0 = "Inr []" and ?l1.0 = "[]" and ?r2.0 = "Inr []" and ?l2.0 = "[]"])
       (simp_all add: run_true_def truthy_def PIPE_def STDOUT_def)
  moreover have "exec_cmd_async [ascii ''true''] None (Some PIPE) (Some PIPE) False True run_true
     = (Inl AttributeError, [cmd_event [ascii ''true'']])"
    by (simp add: exec_cmd_async_def create_subprocess_exec_def coroutine_getattr_def raise_def
          truthy_def PIPE_def ascii_def cmd_event_def)
  ultimately show ?thesis by simp
qed

end
